theory Spec2Isabelle
  imports Complex_Main
begin

section \<open>Mean-field variational inference for a CTBN (ctbn.py)\<close>

text \<open>
  The arrays of the program are modelled over the real numbers: a vector is a list of
  reals, a matrix a list of rows, a three-index tensor a list of matrices. Index arrays and
  mask arrays hold natural numbers. The elementary functions \<open>exp\<close> and \<open>log\<close> of the
  array library are the real \<open>exp\<close> and \<open>ln\<close>.
\<close>

type_synonym vec = "real list"
type_synonym mat = "real list list"
type_synonym tensor3 = "real list list list"

subsection \<open>Elementary helpers\<close>

text \<open>\<open>jnp.finfo('float32').smallest_normal\<close>, the smallest normal single-precision float.\<close>

definition smallest_float32 :: real where
  "smallest_float32 = 1 / 2 ^ 126"

definition safe_log :: "real \<Rightarrow> real" where
  "safe_log x = ln (max x smallest_float32)"

definition safe_recip :: "real \<Rightarrow> real" where
  "safe_recip x = 1 / max x smallest_float32"

text \<open>\<open>product(x) = exp(sum(safe_log(x)))\<close> along one axis, here the list.\<close>

definition product :: "real list \<Rightarrow> real" where
  "product xs = exp (sum_list (map safe_log xs))"

text \<open>\<open>jnp.ones((N,N)) - jnp.eye(N)\<close>\<close>

definition offdiag_mask :: "nat \<Rightarrow> mat" where
  "offdiag_mask N = map (\<lambda>i. map (\<lambda>j. 1 - (if i = j then 1 else 0)) [0..<N]) [0..<N]"

text \<open>Elementwise operations on matrices of equal shape.\<close>

definition mat_add :: "mat \<Rightarrow> mat \<Rightarrow> mat" where
  "mat_add a b = map2 (map2 (+)) a b"

definition mat_sub :: "mat \<Rightarrow> mat \<Rightarrow> mat" where
  "mat_sub a b = map2 (map2 (-)) a b"

definition mat_mul :: "mat \<Rightarrow> mat \<Rightarrow> mat" where
  "mat_mul a b = map2 (map2 (*)) a b"

definition mat_abs :: "mat \<Rightarrow> mat" where
  "mat_abs a = map (map abs) a"

definition mat_scale :: "mat \<Rightarrow> real \<Rightarrow> mat" where
  "mat_scale a c = map (map (\<lambda>v. v * c)) a"

text \<open>\<open>jnp.diag\<close> of a vector.\<close>

definition diag :: "vec \<Rightarrow> mat" where
  "diag v = map (\<lambda>i. map (\<lambda>j. if i = j then v ! i else 0) [0..<length v]) [0..<length v]"

text \<open>\<open>(matrix + matrix.swapaxes(-1,-2)) / 2\<close>\<close>

definition symmetrise :: "mat \<Rightarrow> mat" where
  "symmetrise matrix = mat_scale (mat_add matrix (transpose matrix)) (1 / 2)"

text \<open>\<open>matrix - jnp.diag(jnp.sum(matrix, axis=-1))\<close>\<close>

definition row_normalise :: "mat \<Rightarrow> mat" where
  "row_normalise matrix = mat_sub matrix (diag (map sum_list matrix))"

subsection \<open>Rate parameters\<close>

record params =
  S :: mat
  J :: mat
  h :: vec

definition normalise_ctbn_params :: "params \<Rightarrow> params" where
  "normalise_ctbn_params p =
     \<lparr> S = symmetrise (row_normalise (mat_abs (S p))),
       J = symmetrise (J p),
       h = h p \<rparr>"

text \<open>A matrix of shape \<open>(n, n)\<close>.\<close>

definition square :: "nat \<Rightarrow> mat \<Rightarrow> bool" where
  "square n m \<longleftrightarrow> length m = n \<and> list_all (\<lambda>r. length r = n) m"

subsection \<open>Errors\<close>

text \<open>
  The exceptions the modelled functions raise: a failed \<open>assert\<close> with its message,
  \<open>max\<close> of an empty list, and an index out of bounds.
\<close>

datatype error = AssertionError string | ValueError | IndexError

subsection \<open>Sparse neighbourhoods: \<open>get_Markov_blankets\<close>\<close>

text \<open>Python's \<open>int.bit_length\<close>: the number of bits of the absolute value.\<close>

fun bit_length_nat :: "nat \<Rightarrow> nat" where
  "bit_length_nat n = (if n = 0 then 0 else Suc (bit_length_nat (n div 2)))"

declare bit_length_nat.simps [simp del]

definition bit_length :: "int \<Rightarrow> nat" where
  "bit_length i = bit_length_nat (nat \<bar>i\<bar>)"

text \<open>
  \<open>round_up_to_power(x)\<close> with the default \<open>base = 2\<close>, the only way the program
  calls it: \<open>1 << (x-1).bit_length()\<close>.
\<close>

definition round_up_to_power :: "nat \<Rightarrow> nat" where
  "round_up_to_power x = 2 ^ bit_length (int x - 1)"

text \<open>
  The contact matrix is a two-dimensional array, modelled as its list of rows; its shape
  is the number of rows and the length of a row.
\<close>

definition shape :: "'a list list \<Rightarrow> nat \<times> nat" where
  "shape C = (length C, (case C of [] \<Rightarrow> 0 | r # _ \<Rightarrow> length r))"

text \<open>\<open>row.nonzero()[0]\<close>: the indices of the nonzero entries of a row.\<close>

definition nonzero :: "int list \<Rightarrow> nat list" where
  "nonzero row = filter (\<lambda>j. row ! j \<noteq> 0) [0..<length row]"

text \<open>\<open>max\<close> of a list of lengths; the caller has ruled the empty list out.\<close>

definition list_max :: "nat list \<Rightarrow> nat" where
  "list_max ns = foldr max ns 0"

definition get_Markov_blankets ::
  "int list list \<Rightarrow> int list option \<Rightarrow> int list option \<Rightarrow> nat option \<Rightarrow> nat option \<Rightarrow>
   error + (nat list \<times> nat list list \<times> nat list list \<times> int list option \<times> int list option)" where
  "get_Markov_blankets C xs ys K M =
    (let K_prepad = fst (shape C) in
     if shape C \<noteq> (K_prepad, K_prepad) then Inl (AssertionError ''C must be a square matrix'')
     else if (case xs of None \<Rightarrow> False | Some x \<Rightarrow> length x \<noteq> K_prepad)
       then Inl (AssertionError ''length of xs must equal size of C'')
     else if (case ys of None \<Rightarrow> False | Some y \<Rightarrow> length y \<noteq> K_prepad)
       then Inl (AssertionError ''length of ys must equal size of C'')
     else
      (let K' = (case K of None \<Rightarrow> round_up_to_power K_prepad | Some k \<Rightarrow> k);
           nbr_idx_list = map nonzero C
       in if nbr_idx_list = [] then Inl ValueError
          else
           (let most = list_max (map length nbr_idx_list) in
            if (case M of None \<Rightarrow> False | Some m \<Rightarrow> \<not> m \<ge> most)
              then Inl (AssertionError
                     ''M must be at least as large as the largest number of neighbors'')
            else
             (let M' = (case M of None \<Rightarrow> round_up_to_power most | Some m \<Rightarrow> m);
                  seq_mask = map (\<lambda>seq_idx. if seq_idx < K_prepad then 1 else 0) [0..<K'];
                  nbr_mask = map (\<lambda>nbr_idx. replicate (length nbr_idx) 1
                                         @ replicate (M' - length nbr_idx) 0) nbr_idx_list
                             @ replicate (K' - K_prepad) (replicate M' 0);
                  nbr_idx = map (\<lambda>nbrs. nbrs @ replicate (M' - length nbrs) 0) nbr_idx_list;
                  xs' = map_option (\<lambda>x. x @ replicate (K' - K_prepad) 0) xs;
                  ys' = map_option (\<lambda>y. y @ replicate (K' - K_prepad) 0) ys
              in Inr (seq_mask, nbr_idx, nbr_mask, xs', ys')))))"

text \<open>The messages of the three kinds of assertion in \<open>get_Markov_blankets\<close>.\<close>

definition blanket_messages :: "string set" where
  "blanket_messages =
     {''C must be a square matrix'',
      ''length of xs must equal size of C'',
      ''length of ys must equal size of C'',
      ''M must be at least as large as the largest number of neighbors''}"

subsection \<open>Mean-field averaged rates\<close>

text \<open>
  Index arrays (\<open>idx\<close>, \<open>nbr_idx\<close>) and mask arrays (\<open>nbr_mask\<close>, \<open>seq_mask\<close>) hold
  natural numbers. A power whose exponent is a mask entry is the power by a natural
  number (\<open>v ** 0 = 1\<close>, \<open>v ** 1 = v\<close> for every \<open>v\<close>); a power of a positive base by a
  real exponent is \<open>powr\<close>. An \<open>einsum\<close> is the nested sum over the contracted indices.
  \<open>N = mu.shape[-1]\<close> is \<open>snd (shape mu)\<close>.
\<close>

definition q_bar :: "nat list \<Rightarrow> nat list list \<Rightarrow> nat list list \<Rightarrow> params \<Rightarrow> mat \<Rightarrow> tensor3" where
  "q_bar idx nbr_idx nbr_mask p mu =
    (let N = snd (shape mu);
         exp_2J = map (map (\<lambda>v. exp (2 * v))) (J p);
         mu_nbr = map (\<lambda>i. map (\<lambda>n. mu ! n) (nbr_idx ! i)) idx;
         mu_exp_2JC =
           map (\<lambda>a. map (\<lambda>k. map (\<lambda>y.
                  (\<Sum>x\<leftarrow>[0..<N]. mu_nbr ! a ! k ! x * exp_2J ! y ! x) ^ (nbr_mask ! (idx ! a) ! k))
                [0..<N]) [0..<length (mu_nbr ! a)]) [0..<length idx];
         S' = mat_mul (S p) (offdiag_mask N)
     in map (\<lambda>a. map (\<lambda>x. map (\<lambda>y.
            S' ! x ! y * exp (h p ! y)
              * product (map (\<lambda>k. mu_exp_2JC ! a ! k ! y) [0..<length (mu_exp_2JC ! a)]))
          [0..<N]) [0..<N]) [0..<length idx])"

text \<open>
  \<open>nonself_nbr_mask = offdiag_mask(M) * jnp.outer(nbr_mask[i],nbr_mask[i])\<close> and
  \<open>cond_energy = nbr_mask[i,:,None,None] * J[None,:,:]\<close>, shared by the two conditioned
  rate tensors.

  In \<open>q_bar_cond\<close> the line \<open>mu_nbr = mu[nbr_idx[i]] ** nbr_mask[i,:]\<close> raises an array of
  shape \<open>(M, N)\<close> to one of shape \<open>(M,)\<close>. Broadcasting aligns the mask with the last axis,
  so the two shapes are compatible when \<open>M = N\<close>, \<open>M = 1\<close> or \<open>N = 1\<close> and the array library
  raises a \<open>ValueError\<close> otherwise. The exponent of entry \<open>(k, x)\<close> is \<open>nbr_mask[i, x]\<close>
  (\<open>nbr_mask[i, 0]\<close> when \<open>M = 1\<close>); when \<open>N = 1\<close> the result has \<open>M\<close> columns, each the one
  state of the neighbour, and the contraction that follows broadcasts the one column
  of \<open>exp_2JC\<close> over them.
\<close>

definition nonself_nbr_mask :: "nat \<Rightarrow> nat list \<Rightarrow> mat" where
  "nonself_nbr_mask M mask_i =
     map (\<lambda>j. map (\<lambda>k. offdiag_mask M ! j ! k * (real (mask_i ! j) * real (mask_i ! k)))
       [0..<M]) [0..<M]"

definition cond_energy :: "nat list \<Rightarrow> mat \<Rightarrow> tensor3" where
  "cond_energy mask_i Jm = map (\<lambda>m. map (map (\<lambda>v. real m * v)) Jm) mask_i"

definition broadcastable :: "nat \<Rightarrow> nat \<Rightarrow> bool" where
  "broadcastable M N \<longleftrightarrow> M = 1 \<or> M = N \<or> N = 1"

definition q_bar_cond ::
  "nat \<Rightarrow> nat list list \<Rightarrow> nat list list \<Rightarrow> params \<Rightarrow> mat
   \<Rightarrow> error + real list list list list" where
  "q_bar_cond i nbr_idx nbr_mask p mu =
    (let M = snd (shape nbr_idx);
         N = snd (shape mu)
     in if \<not> broadcastable M N then Inl ValueError
        else
         (let X = (if N = 1 then M else N);
              nonself = nonself_nbr_mask M (nbr_mask ! i);
              ce = cond_energy (nbr_mask ! i) (J p);
              exp_2J = map (map (\<lambda>v. exp (2 * v))) (J p);
              mu_nbr = map (\<lambda>k. map (\<lambda>x. mu ! (nbr_idx ! i ! k) ! (if N = 1 then 0 else x)
                                            ^ (nbr_mask ! i ! (if M = 1 then 0 else x))) [0..<X])
                           [0..<M];
              mu_exp_JC =
                map (\<lambda>j. map (\<lambda>k. map (\<lambda>y.
                       (\<Sum>x\<leftarrow>[0..<X]. mu_nbr ! k ! x
                           * (exp_2J ! y ! (if N = 1 then 0 else x)) powr (nonself ! j ! k)))
                     [0..<N]) [0..<M]) [0..<M];
              S' = mat_mul (S p) (offdiag_mask N)
          in Inr (map (\<lambda>j. map (\<lambda>xn. map (\<lambda>x. map (\<lambda>y.
                 S' ! x ! y * exp (h p ! y) * exp (- 2 * ce ! j ! xn ! y)
                   * product (map (\<lambda>k. mu_exp_JC ! j ! k ! y) [0..<M]))
               [0..<N]) [0..<N]) [0..<N]) [0..<M])))"

definition q_tilde :: "nat list \<Rightarrow> nat list list \<Rightarrow> nat list list \<Rightarrow> params \<Rightarrow> mat \<Rightarrow> tensor3" where
  "q_tilde idx nbr_idx nbr_mask p mu =
    (let N = snd (shape mu);
         mean_energy =
           map (\<lambda>a. map (\<lambda>y.
                  (\<Sum>k\<leftarrow>[0..<length (nbr_idx ! (idx ! a))]. \<Sum>x\<leftarrow>[0..<N].
                      mu ! (nbr_idx ! (idx ! a) ! k) ! x * real (nbr_mask ! (idx ! a) ! k)
                        * J p ! y ! x))
                [0..<N]) [0..<length idx];
         S' = mat_mul (S p) (offdiag_mask N)
     in map (\<lambda>a. map (\<lambda>x. map (\<lambda>y.
            S' ! x ! y * exp (h p ! y + 2 * mean_energy ! a ! y))
          [0..<N]) [0..<N]) [0..<length idx])"

definition q_tilde_cond ::
  "nat \<Rightarrow> nat list list \<Rightarrow> nat list list \<Rightarrow> params \<Rightarrow> mat \<Rightarrow> real list list list list" where
  "q_tilde_cond i nbr_idx nbr_mask p mu =
    (let M = snd (shape nbr_idx);
         N = snd (shape mu);
         nonself = nonself_nbr_mask M (nbr_mask ! i);
         ce = cond_energy (nbr_mask ! i) (J p);
         mean_energy =
           map (\<lambda>j. map (\<lambda>y.
                  (\<Sum>k\<leftarrow>[0..<M]. \<Sum>x\<leftarrow>[0..<N].
                      mu ! (nbr_idx ! i ! k) ! x * nonself ! j ! k * J p ! y ! x))
                [0..<N]) [0..<M];
         S' = mat_mul (S p) (offdiag_mask N)
     in map (\<lambda>j. map (\<lambda>xn. map (\<lambda>x. map (\<lambda>y.
            S' ! x ! y * exp (h p ! y) * exp (2 * ce ! j ! xn ! y)
              * exp (2 * mean_energy ! j ! y))
          [0..<N]) [0..<N]) [0..<N]) [0..<M])"

text \<open>\<open>q_single_offdiag\<close>: \<open>S * offdiag_mask(N) * exp(h)[None,:]\<close> with \<open>N = S.shape[0]\<close>.\<close>

definition q_single_offdiag :: "params \<Rightarrow> mat" where
  "q_single_offdiag p =
     (let N = fst (shape (S p)) in
      map (\<lambda>row. map2 (\<lambda>v hy. v * exp hy) row (h p)) (mat_mul (S p) (offdiag_mask N)))"

definition q_single :: "params \<Rightarrow> mat" where
  "q_single p = row_normalise (q_single_offdiag p)"

subsection \<open>Derivatives of the trajectories and of the bound\<close>

definition gamma ::
  "nat list \<Rightarrow> nat list list \<Rightarrow> nat list list \<Rightarrow> params \<Rightarrow> mat \<Rightarrow> mat \<Rightarrow> tensor3" where
  "gamma idx nbr_idx nbr_mask p mu rho =
    (let N = snd (shape mu);
         qt = q_tilde idx nbr_idx nbr_mask p mu
     in map (\<lambda>a. map (\<lambda>x. map (\<lambda>y.
            mu ! (idx ! a) ! x * qt ! a ! x ! y * rho ! (idx ! a) ! y
              * safe_recip (rho ! (idx ! a) ! x))
          [0..<N]) [0..<N]) [0..<length idx])"

definition psi ::
  "nat \<Rightarrow> nat list list \<Rightarrow> nat list list \<Rightarrow> params \<Rightarrow> mat \<Rightarrow> mat \<Rightarrow> error + vec" where
  "psi i nbr_idx nbr_mask p mu rho =
    (let M = snd (shape nbr_idx);
         N = snd (shape mu);
         gammas = gamma (nbr_idx ! i) nbr_idx nbr_mask p mu rho
     in case q_bar_cond i nbr_idx nbr_mask p mu of
          Inl e \<Rightarrow> Inl e
        | Inr qbar_cond \<Rightarrow>
           (let qtilde_cond = q_tilde_cond i nbr_idx nbr_mask p mu;
                log_qtilde_cond =
                  map (map (map (map (\<lambda>v. safe_log (if v < 0 then 1 else v))))) qtilde_cond
            in Inr (map (\<lambda>x.
                 - (\<Sum>j\<leftarrow>[0..<M]. \<Sum>y\<leftarrow>[0..<N]. \<Sum>z\<leftarrow>[0..<N].
                      mu ! (nbr_idx ! i ! j) ! y * qbar_cond ! j ! x ! y ! z
                        * real (nbr_mask ! i ! j))
                 + (\<Sum>j\<leftarrow>[0..<M]. \<Sum>y\<leftarrow>[0..<N]. \<Sum>z\<leftarrow>[0..<N].
                      gammas ! j ! y ! z * log_qtilde_cond ! j ! x ! y ! z
                        * real (nbr_mask ! i ! j)))
               [0..<N])))"

definition rho_deriv ::
  "nat \<Rightarrow> nat list list \<Rightarrow> nat list list \<Rightarrow> params \<Rightarrow> mat \<Rightarrow> mat \<Rightarrow> error + vec" where
  "rho_deriv i nbr_idx nbr_mask p mu rho =
    (let N = snd (shape mu);
         qbar = q_bar [i] nbr_idx nbr_mask p mu ! 0;
         qbar_diag = map (\<lambda>x. - (\<Sum>y\<leftarrow>[0..<N]. qbar ! x ! y)) [0..<N]
     in case psi i nbr_idx nbr_mask p mu rho of
          Inl e \<Rightarrow> Inl e
        | Inr psi' \<Rightarrow>
           (let qtilde = q_tilde [i] nbr_idx nbr_mask p mu
            in Inr (map (\<lambda>x. - (rho ! i ! x) * (qbar_diag ! x + psi' ! x)
                             - (\<Sum>y\<leftarrow>[0..<N]. rho ! i ! y * qtilde ! 0 ! x ! y))
                      [0..<N])))"

definition mu_deriv :: "nat \<Rightarrow> nat list list \<Rightarrow> nat list list \<Rightarrow> params \<Rightarrow> mat \<Rightarrow> mat \<Rightarrow> vec" where
  "mu_deriv i nbr_idx nbr_mask p mu rho =
    (let N = snd (shape mu);
         gamma' = gamma [i] nbr_idx nbr_mask p mu rho ! 0
     in map (\<lambda>x. (\<Sum>y\<leftarrow>[0..<N]. gamma' ! y ! x) - (\<Sum>y\<leftarrow>[0..<N]. gamma' ! x ! y)) [0..<N])"

text \<open>
  The two \<open>einsum\<close>s of \<open>F_deriv\<close> are sums over the components \<open>i\<close>; the summand of
  component \<open>i\<close> is its contribution to \<open>dF\<close>.
\<close>

definition F_mask :: "nat list \<Rightarrow> nat \<Rightarrow> tensor3" where
  "F_mask seq_mask N =
     map (\<lambda>m. map (map (\<lambda>v. real m * v)) (offdiag_mask N)) seq_mask"

definition F_contrib ::
  "nat list \<Rightarrow> nat list list \<Rightarrow> nat list list \<Rightarrow> params \<Rightarrow> mat \<Rightarrow> mat \<Rightarrow> nat \<Rightarrow> real" where
  "F_contrib seq_mask nbr_idx nbr_mask p mu rho i =
    (let K = fst (shape mu); N = snd (shape mu);
         idx = [0..<K];
         qbar = q_bar idx nbr_idx nbr_mask p mu;
         qtilde = q_tilde idx nbr_idx nbr_mask p mu;
         gamma' = gamma idx nbr_idx nbr_mask p mu rho;
         mask = F_mask seq_mask N;
         log_qtilde = (\<lambda>i x y. safe_log (if mask ! i ! x ! y \<noteq> 0 then qtilde ! i ! x ! y else 1));
         gamma_coeff = (\<lambda>i x y. log_qtilde i x y + 1 + safe_log (mu ! i ! x)
                                   - safe_log (gamma' ! i ! x ! y))
     in - (\<Sum>x\<leftarrow>[0..<N]. \<Sum>y\<leftarrow>[0..<N]. mu ! i ! x * qbar ! i ! x ! y * mask ! i ! x ! y)
        + (\<Sum>x\<leftarrow>[0..<N]. \<Sum>y\<leftarrow>[0..<N].
              gamma' ! i ! x ! y * gamma_coeff i x y * mask ! i ! x ! y))"

definition F_deriv ::
  "nat list \<Rightarrow> nat list list \<Rightarrow> nat list list \<Rightarrow> params \<Rightarrow> mat \<Rightarrow> mat \<Rightarrow> real" where
  "F_deriv seq_mask nbr_idx nbr_mask p mu rho =
     (\<Sum>i\<leftarrow>[0..<fst (shape mu)]. F_contrib seq_mask nbr_idx nbr_mask p mu rho i)"

subsection \<open>External library functions\<close>

text \<open>
  The program calls four library functions whose code is not part of it. They are taken
  as parameters, so every theorem holds whatever they compute:
  \<open>jax.scipy.linalg.expm\<close>, \<open>jax.random.permutation\<close>, and \<open>diffrax.diffeqsolve\<close> in its
  two uses, with a dense path saved (\<open>saveat = SaveAt(dense=True)\<close>) and with the last
  value read (\<open>ys[-1]\<close>). The arguments of \<open>diffeqsolve\<close> kept here are the vector field,
  \<open>t0\<close>, \<open>t1\<close> and \<open>y0\<close>; the solver and its tolerances are fixed in the program.
  A solution object is whatever has \<open>evaluate(t)\<close>: it is modelled as that function.
\<close>

type_synonym path = "real \<Rightarrow> vec"

record 'key library =
  expm :: "mat \<Rightarrow> mat"
  permutation :: "'key \<Rightarrow> nat \<Rightarrow> nat list"
  diffeqsolve_dense :: "(real \<Rightarrow> vec \<Rightarrow> vec) \<Rightarrow> real \<Rightarrow> real \<Rightarrow> vec \<Rightarrow> path"
  diffeqsolve_last :: "(real \<Rightarrow> real \<Rightarrow> real) \<Rightarrow> real \<Rightarrow> real \<Rightarrow> real \<Rightarrow> real"

subsection \<open>Exact solutions for one rate matrix\<close>

record ExactRho =
  self_N :: nat
  self_q :: mat
  self_T :: real
  self_x :: nat
  self_y :: nat
  self_exp_qT :: real

text \<open>The constructor, shared by \<open>ExactRho\<close> and \<open>ExactMu\<close>; its \<open>assert\<close> has no message.\<close>

definition ExactRho_init :: "(mat \<Rightarrow> mat) \<Rightarrow> mat \<Rightarrow> real \<Rightarrow> nat \<Rightarrow> nat \<Rightarrow> error + ExactRho" where
  "ExactRho_init expm' q T x y =
    (let N = fst (shape q) in
     if shape q \<noteq> (N, N) then Inl (AssertionError [])
     else Inr \<lparr> self_N = N, self_q = row_normalise q, self_T = T, self_x = x, self_y = y,
                self_exp_qT = expm' (mat_scale q T) ! x ! y \<rparr>)"

definition ExactRho_evaluate :: "(mat \<Rightarrow> mat) \<Rightarrow> ExactRho \<Rightarrow> real \<Rightarrow> vec" where
  "ExactRho_evaluate expm' self t =
    (let rho = map (\<lambda>row. row ! self_y self) (expm' (mat_scale (self_q self) (self_T self - t)))
     in map (\<lambda>r. min r 1) rho)"

definition ExactMu_evaluate :: "(mat \<Rightarrow> mat) \<Rightarrow> ExactRho \<Rightarrow> real \<Rightarrow> vec" where
  "ExactMu_evaluate expm' self t =
    (let rho = ExactRho_evaluate expm' self t;
         exp_qt = expm' (mat_scale (self_q self) t) ! self_x self;
         mu = map2 (\<lambda>e r. e * r / self_exp_qT self) exp_qt rho
     in map (\<lambda>m. m / sum_list mu) mu)"

subsection \<open>Right-hand sides of the three ODEs\<close>

definition eval_mu_rho :: "path list \<Rightarrow> path list \<Rightarrow> real \<Rightarrow> mat \<times> mat" where
  "eval_mu_rho mu_solns rho_solns t =
     (map (\<lambda>mu_soln. mu_soln t) mu_solns, map (\<lambda>rho_soln. rho_soln t) rho_solns)"

fun F_term ::
  "real \<Rightarrow> real \<Rightarrow> nat list \<times> nat list list \<times> nat list list \<times> params \<times> path list \<times> path list \<times> real
   \<Rightarrow> real" where
  "F_term t F_t (seq_mask, nbr_idx, nbr_mask, p, mu_solns, rho_solns, T) =
    (let (mu, rho) = eval_mu_rho mu_solns rho_solns t;
         mu = (if t < T then mu else rho)
     in F_deriv seq_mask nbr_idx nbr_mask p mu rho)"

fun rho_term ::
  "real \<Rightarrow> vec \<Rightarrow>
   nat \<times> nat list \<times> nat list list \<times> nat list list \<times> params \<times> path list \<times> path list \<times> real
   \<Rightarrow> error + vec" where
  "rho_term t rho_i_t (i, seq_mask, nbr_idx, nbr_mask, p, mu_solns, rho_solns, T) =
    (let (mu, rho) = eval_mu_rho mu_solns rho_solns t;
         mu = (if t < T then mu else rho);
         rho = rho[i := rho_i_t]
     in case rho_deriv i nbr_idx nbr_mask p mu rho of
          Inl e \<Rightarrow> Inl e
        | Inr rho_deriv' \<Rightarrow> Inr (map (\<lambda>v. real (seq_mask ! i) * v) rho_deriv'))"

fun mu_term ::
  "real \<Rightarrow> vec \<Rightarrow>
   nat \<times> nat list \<times> nat list list \<times> nat list list \<times> params \<times> path list \<times> path list \<times> real
   \<Rightarrow> vec" where
  "mu_term t mu_i_t (i, seq_mask, nbr_idx, nbr_mask, p, mu_solns, rho_solns, T) =
    (let (mu, rho) = eval_mu_rho mu_solns rho_solns t;
         mu = mu[i := mu_i_t];
         mu = (if t < T then mu else rho)
     in map (\<lambda>v. real (seq_mask ! i) * v) (mu_deriv i nbr_idx nbr_mask p mu rho))"

definition solve_F ::
  "'key library \<Rightarrow> nat list \<Rightarrow> nat list list \<Rightarrow> nat list list \<Rightarrow> params \<Rightarrow> path list \<Rightarrow> path list
   \<Rightarrow> real \<Rightarrow> real" where
  "solve_F lib seq_mask nbr_idx nbr_mask p mu_solns rho_solns T =
     diffeqsolve_last lib
       (\<lambda>t F_t. F_term t F_t (seq_mask, nbr_idx, nbr_mask, p, mu_solns, rho_solns, T)) 0 T 0"

text \<open>
  The shape error of \<open>rho_term\<close> depends on the shapes of the arrays only, not on the
  time or the value at which the vector field is evaluated: when the integrator first
  evaluates the field, at \<open>t0\<close> and \<open>y0\<close>, the error is raised out of \<open>solve_rho\<close>.
  Otherwise the integrator receives the field \<open>rho_field\<close>, which is \<open>rho_term\<close> on the
  arrays of the call.
\<close>

definition rho_field ::
  "nat \<times> nat list \<times> nat list list \<times> nat list list \<times> params \<times> path list \<times> path list \<times> real
   \<Rightarrow> real \<Rightarrow> vec \<Rightarrow> vec" where
  "rho_field args t rho_i_t = (case rho_term t rho_i_t args of Inl e \<Rightarrow> [] | Inr v \<Rightarrow> v)"

definition solve_rho ::
  "'key library \<Rightarrow> nat \<Rightarrow> vec \<Rightarrow> nat list \<Rightarrow> nat list list \<Rightarrow> nat list list \<Rightarrow> params \<Rightarrow> path list
   \<Rightarrow> path list \<Rightarrow> real \<Rightarrow> error + path" where
  "solve_rho lib i rho_i_T seq_mask nbr_idx nbr_mask p mu_solns rho_solns T =
    (let args = (i, seq_mask, nbr_idx, nbr_mask, p, mu_solns, rho_solns, T)
     in case rho_term T rho_i_T args of
          Inl e \<Rightarrow> Inl e
        | Inr d \<Rightarrow> Inr (diffeqsolve_dense lib (rho_field args) T 0 rho_i_T))"

definition solve_mu ::
  "'key library \<Rightarrow> nat \<Rightarrow> vec \<Rightarrow> nat list \<Rightarrow> nat list list \<Rightarrow> nat list list \<Rightarrow> params \<Rightarrow> path list
   \<Rightarrow> path list \<Rightarrow> real \<Rightarrow> path" where
  "solve_mu lib i mu_i_0 seq_mask nbr_idx nbr_mask p mu_solns rho_solns T =
     diffeqsolve_dense lib
       (\<lambda>t mu_i_t. mu_term t mu_i_t (i, seq_mask, nbr_idx, nbr_mask, p, mu_solns, rho_solns, T))
       0 T mu_i_0"

subsection \<open>The coordinate-ascent driver\<close>

text \<open>
  \<open>replace_nth\<close> rebuilds the list, choosing the new element where the position equals
  \<open>n\<close>.
\<close>

definition replace_nth :: "'a list \<Rightarrow> nat \<Rightarrow> 'a \<Rightarrow> 'a list" where
  "replace_nth old_arr n new_nth_elt =
     map (\<lambda>(k, old_kth_elt). if k = n then new_nth_elt else old_kth_elt) (enumerate 0 old_arr)"

text \<open>
  The variables of \<open>ctbn_variational_log_cond\<close> that its inner functions \<open>score_fun\<close>,
  \<open>update_fun\<close> and \<open>loop_body_fun\<close> close over. None of them is assigned after the
  inner functions are defined.
\<close>

record 'key closure =
  c_prng :: 'key
  c_K :: nat
  c_seq_mask :: "nat list"
  c_nbr_idx :: "nat list list"
  c_nbr_mask :: "nat list list"
  c_params :: params
  c_T :: real
  c_mu_0 :: mat
  c_rho_T :: mat

type_synonym inner_state = "path list \<times> path list"
type_synonym outer_state = "inner_state \<times> int"

definition score_fun :: "'key library \<Rightarrow> 'key closure \<Rightarrow> outer_state \<Rightarrow> real" where
  "score_fun lib c outer_state =
    (let (mu_solns, rho_solns) = fst outer_state
     in solve_F lib (c_seq_mask c) (c_nbr_idx c) (c_nbr_mask c) (c_params c) mu_solns rho_solns
          (c_T c))"

definition loop_body_fun ::
  "'key library \<Rightarrow> 'key closure \<Rightarrow> inner_state \<Rightarrow> nat \<Rightarrow> error + inner_state" where
  "loop_body_fun lib c inner_state i =
    (let (mu_solns, rho_solns) = inner_state
     in case solve_rho lib i (c_rho_T c ! i) (c_seq_mask c) (c_nbr_idx c) (c_nbr_mask c)
               (c_params c) mu_solns rho_solns (c_T c) of
          Inl e \<Rightarrow> Inl e
        | Inr new_rho_i \<Rightarrow>
           (let rho_solns = replace_nth rho_solns i new_rho_i;
                new_mu_i = solve_mu lib i (c_mu_0 c ! i) (c_seq_mask c) (c_nbr_idx c)
                             (c_nbr_mask c) (c_params c) mu_solns rho_solns (c_T c);
                mu_solns = replace_nth mu_solns i new_mu_i
            in Inr (mu_solns, rho_solns)))"

text \<open>
  \<open>jax.lax.scan\<close> over a list: the body is applied from left to right, each time to
  the state the one before returned; an exception of the body ends it.
\<close>

fun scan :: "('s \<Rightarrow> 'a \<Rightarrow> error + 's) \<Rightarrow> 's \<Rightarrow> 'a list \<Rightarrow> error + 's" where
  "scan f state [] = Inr state"
| "scan f state (x # xs) =
    (case f state x of Inl e \<Rightarrow> Inl e | Inr state' \<Rightarrow> scan f state' xs)"

text \<open>
  The order of one sweep: the permutation drawn from the key of the closure, reversed
  when its first element is the index that the previous sweep updated last.
\<close>

definition sweep_order :: "'key library \<Rightarrow> 'key closure \<Rightarrow> int \<Rightarrow> nat list" where
  "sweep_order lib c last_i =
    (let order = permutation lib (c_prng c) (c_K c)
     in if last_i = int (order ! 0) then rev order else order)"

text \<open>
  \<open>order[0]\<close> and \<open>order[-1]\<close> are out of bounds when the permutation is empty (\<open>K = 0\<close>).
\<close>

definition update_fun :: "'key library \<Rightarrow> 'key closure \<Rightarrow> outer_state \<Rightarrow> error + outer_state" where
  "update_fun lib c outer_state =
    (let (inner_state, last_i) = outer_state in
     if permutation lib (c_prng c) (c_K c) = [] then Inl IndexError
     else
      (let order = sweep_order lib c last_i
       in case scan (loop_body_fun lib c) inner_state order of
            Inl e \<Rightarrow> Inl e
          | Inr inner_state \<Rightarrow> Inr (inner_state, int (last order))))"

text \<open>
  Modelled from the spec: \<open>bounded_optimize\<close> of the module \<open>bounded_while_loop\<close>, which
  the program imports and whose code is missing. The specification of the driver says:
  after each sweep the bound \<open>F_curr\<close> is computed; the loop stops when
  \<open>(F_curr - F_prev) / F_prev\<close> is at most the minimum relative increase or when the
  maximum number of sweeps is reached, whichever comes first; it returns the last
  computed \<open>F_curr\<close> and the final state. The first \<open>F_prev\<close> is the score of the initial
  state. An exception of the update function ends the loop.
\<close>

fun bounded_loop ::
  "('s \<Rightarrow> real) \<Rightarrow> ('s \<Rightarrow> error + 's) \<Rightarrow> real \<Rightarrow> nat \<Rightarrow> real \<Rightarrow> 's \<Rightarrow> error + (real \<times> 's)" where
  "bounded_loop score update min_inc 0 F_prev state = Inr (F_prev, state)"
| "bounded_loop score update min_inc (Suc budget) F_prev state =
    (case update state of
       Inl e \<Rightarrow> Inl e
     | Inr state' \<Rightarrow>
        (let F_curr = score state' in
         if (F_curr - F_prev) / F_prev \<le> min_inc then Inr (F_curr, state')
         else bounded_loop score update min_inc budget F_curr state'))"

definition bounded_optimize ::
  "('s \<Rightarrow> real) \<Rightarrow> ('s \<Rightarrow> error + 's) \<Rightarrow> 's \<Rightarrow> nat \<Rightarrow> real \<Rightarrow> error + (real \<times> 's)" where
  "bounded_optimize score update init_state max_updates min_inc =
     bounded_loop score update min_inc max_updates (score init_state) init_state"

text \<open>Running a list of constructors, stopping at the first exception.\<close>

fun collect :: "(error + 'a) list \<Rightarrow> error + 'a list" where
  "collect [] = Inr []"
| "collect (r # rs) =
    (case r of Inl e \<Rightarrow> Inl e
     | Inr v \<Rightarrow> (case collect rs of Inl e \<Rightarrow> Inl e | Inr vs \<Rightarrow> Inr (v # vs)))"

text \<open>\<open>jnp.eye(N)\<close>\<close>

definition eye :: "nat \<Rightarrow> mat" where
  "eye N = map (\<lambda>i. map (\<lambda>j. if i = j then 1 else 0) [0..<N]) [0..<N]"

text \<open>
  The part of \<open>ctbn_variational_log_cond\<close> before the loop: the normalised parameters
  and the boundary conditions, gathered in the closure, then the first pair of solution
  arrays, solved from the exact solutions without interactions.
\<close>

definition ctbn_closure ::
  "'key \<Rightarrow> nat list \<Rightarrow> nat list \<Rightarrow> nat list \<Rightarrow> nat list list \<Rightarrow> nat list list \<Rightarrow> params \<Rightarrow> real
   \<Rightarrow> 'key closure" where
  "ctbn_closure prng xs ys seq_mask nbr_idx nbr_mask p T =
    (let K = fst (shape nbr_idx);
         N = fst (shape (S p))
     in \<lparr> c_prng = prng, c_K = K, c_seq_mask = seq_mask, c_nbr_idx = nbr_idx,
          c_nbr_mask = nbr_mask, c_params = normalise_ctbn_params p, c_T = T,
          c_mu_0 = map (\<lambda>x. eye N ! x) xs, c_rho_T = map (\<lambda>y. eye N ! y) ys \<rparr>)"

definition first_solns ::
  "'key library \<Rightarrow> 'key closure \<Rightarrow> nat list \<Rightarrow> nat list \<Rightarrow> error + inner_state" where
  "first_solns lib c xs ys =
    (let q1 = q_single (c_params c);
         K = c_K c
     in case collect (map (\<lambda>i. ExactRho_init (expm lib) q1 (c_T c) (xs ! i) (ys ! i)) [0..<K]) of
          Inl e \<Rightarrow> Inl e
        | Inr init_rho \<Rightarrow>
           (case collect (map (\<lambda>i. ExactRho_init (expm lib) q1 (c_T c) (xs ! i) (ys ! i)) [0..<K]) of
              Inl e \<Rightarrow> Inl e
            | Inr init_mu \<Rightarrow>
               (let init_rho_solns = map (ExactRho_evaluate (expm lib)) init_rho;
                    init_mu_solns = map (ExactMu_evaluate (expm lib)) init_mu
                in case collect (map (\<lambda>i. solve_rho lib i (c_rho_T c ! i) (c_seq_mask c)
                                    (c_nbr_idx c) (c_nbr_mask c) (c_params c)
                                    init_mu_solns init_rho_solns (c_T c)) [0..<K]) of
                     Inl e \<Rightarrow> Inl e
                   | Inr rho_solns \<Rightarrow>
                      (let mu_solns = map (\<lambda>i. solve_mu lib i (c_mu_0 c ! i) (c_seq_mask c)
                                    (c_nbr_idx c) (c_nbr_mask c) (c_params c)
                                    init_mu_solns rho_solns (c_T c)) [0..<K]
                       in Inr (mu_solns, rho_solns)))))"

definition ctbn_variational_log_cond ::
  "'key library \<Rightarrow> 'key \<Rightarrow> nat list \<Rightarrow> nat list \<Rightarrow> nat list \<Rightarrow> nat list list \<Rightarrow> nat list list \<Rightarrow> params
   \<Rightarrow> real \<Rightarrow> real \<Rightarrow> nat \<Rightarrow> error + (real \<times> inner_state)" where
  "ctbn_variational_log_cond lib prng xs ys seq_mask nbr_idx nbr_mask p T min_inc max_updates =
    (let c = ctbn_closure prng xs ys seq_mask nbr_idx nbr_mask p T
     in case first_solns lib c xs ys of
          Inl e \<Rightarrow> Inl e
        | Inr solns \<Rightarrow>
           (case bounded_optimize (score_fun lib c) (update_fun lib c) (solns, - 1)
                   max_updates min_inc of
              Inl e \<Rightarrow> Inl e
            | Inr (log_elbo, (mu_rho, last_i)) \<Rightarrow> Inr (log_elbo, mu_rho)))"

subsection \<open>Sweeps, counted\<close>

text \<open>
  The state after \<open>n\<close> sweeps, the bound computed after the \<open>n\<close>-th sweep, and the
  relative increase that the \<open>n\<close>-th sweep brought. They serve to state what the loop
  does.
\<close>

fun sweeps :: "('s \<Rightarrow> error + 's) \<Rightarrow> nat \<Rightarrow> 's \<Rightarrow> error + 's" where
  "sweeps update 0 state = Inr state"
| "sweeps update (Suc n) state =
    (case update state of Inl e \<Rightarrow> Inl e | Inr state' \<Rightarrow> sweeps update n state')"

definition bound_after :: "('s \<Rightarrow> real) \<Rightarrow> ('s \<Rightarrow> error + 's) \<Rightarrow> 's \<Rightarrow> nat \<Rightarrow> real" where
  "bound_after score update state n =
     (case sweeps update n state of Inl e \<Rightarrow> 0 | Inr state' \<Rightarrow> score state')"

definition relative_increase :: "('s \<Rightarrow> real) \<Rightarrow> ('s \<Rightarrow> error + 's) \<Rightarrow> 's \<Rightarrow> nat \<Rightarrow> real" where
  "relative_increase score update state n =
     (bound_after score update state n - bound_after score update state (n - 1))
       / bound_after score update state (n - 1)"

text \<open>
  One sweep in a given order, and a run of sweeps in given orders. They serve to state
  in which orders the sweeps of \<open>update_fun\<close> visit the components.
\<close>

definition sweep_in :: "'key library \<Rightarrow> 'key closure \<Rightarrow> nat list \<Rightarrow> outer_state \<Rightarrow> error + outer_state" where
  "sweep_in lib c order outer_state =
    (case scan (loop_body_fun lib c) (fst outer_state) order of
       Inl e \<Rightarrow> Inl e
     | Inr inner_state \<Rightarrow> Inr (inner_state, int (last order)))"

fun sweeps_in ::
  "'key library \<Rightarrow> 'key closure \<Rightarrow> nat list list \<Rightarrow> outer_state \<Rightarrow> error + outer_state" where
  "sweeps_in lib c [] state = Inr state"
| "sweeps_in lib c (order # orders) state =
    (case sweep_in lib c order state of Inl e \<Rightarrow> Inl e | Inr state' \<Rightarrow> sweeps_in lib c orders state')"

text \<open>The number of columns of the matrix that stacks the values of the solutions at \<open>t\<close>.\<close>

definition width :: "path list \<Rightarrow> real \<Rightarrow> nat" where
  "width solns t = snd (shape (map (\<lambda>soln. soln t) solns))"

subsection \<open>Concrete instances\<close>

text \<open>
  Instances of the library, the parameters and the closure on which the statements
  below are evaluated. In \<open>example_lib\<close> the permutation is the identity, the integrator
  returns its initial value and the matrix exponential is the identity function. In
  \<open>rotating_lib\<close> the permutation of three components is \<open>[2, 0, 1]\<close>.
\<close>

definition example_lib :: "nat library" where
  "example_lib =
     \<lparr> expm = (\<lambda>m. m), permutation = (\<lambda>key n. [0..<n]),
       diffeqsolve_dense = (\<lambda>f t0 t1 y0 t. y0), diffeqsolve_last = (\<lambda>f t0 t1 y0. y0) \<rparr>"

definition rotating_lib :: "nat library" where
  "rotating_lib = example_lib \<lparr> permutation := (\<lambda>key n. [2, 0, 1]) \<rparr>"

definition example_params :: params where
  "example_params = \<lparr> S = [[0, 1], [1, 0]], J = [[0, 0], [0, 0]], h = [0, 0] \<rparr>"

text \<open>Two components, each the one neighbour of the other.\<close>

definition pair_closure :: "nat closure" where
  "pair_closure = ctbn_closure 0 [0, 1] [1, 0] [1, 1] [[1], [0]] [[1], [1]] example_params 1"

definition pair_state :: inner_state where
  "pair_state = ([\<lambda>t. [1, 0], \<lambda>t. [0, 1]], [\<lambda>t. [1, 1], \<lambda>t. [1, 1]])"

text \<open>Three components in a chain, padded to one neighbour slot each.\<close>

definition triple_closure :: "nat closure" where
  "triple_closure =
     ctbn_closure 0 [0, 1, 0] [1, 0, 1] [1, 1, 1] [[1], [0], [1]] [[1], [1], [1]] example_params 1"

definition triple_state :: inner_state where
  "triple_state =
     ([\<lambda>t. [1, 0], \<lambda>t. [0, 1], \<lambda>t. [1, 0]], [\<lambda>t. [1, 1], \<lambda>t. [1, 1], \<lambda>t. [1, 1]])"

subsection \<open>The entry of \<open>q_bar\<close> as the specification words it\<close>

text \<open>
  The specification gives the entry \<open>(a, x, y)\<close> of the mean-field rate tensor as
  \<open>S[x,y] * exp(h[y])\<close> times the product over the neighbour slots \<open>k\<close> of
  \<open>(sum over x' of mu_k[x'] * exp(2*J[y,x'])) ^ mask[k]\<close>, and 0 on the diagonal. The
  factor of slot \<open>k\<close> is \<open>nbr_factor\<close>; \<open>q_bar_spec\<close> is the entry in the words of the
  specification, to be compared with \<open>q_bar\<close>.
\<close>

definition nbr_factor ::
  "nat list \<Rightarrow> nat list list \<Rightarrow> nat list list \<Rightarrow> params \<Rightarrow> mat \<Rightarrow> nat \<Rightarrow> nat \<Rightarrow> nat \<Rightarrow> real" where
  "nbr_factor idx nbr_idx nbr_mask p mu a y k =
     (\<Sum>x'\<leftarrow>[0..<snd (shape mu)]. mu ! (nbr_idx ! (idx ! a) ! k) ! x' * exp (2 * J p ! y ! x'))
       ^ (nbr_mask ! (idx ! a) ! k)"



section \<open>Properties\<close>

subsection \<open>Parameter normalisation\<close>

text \<open>
  C4. The claim: for every raw parameter set the normalised \<open>S\<close> is nonnegative off the
  diagonal, symmetric and has rows summing to zero. The code symmetrises after the row
  normalisation, so on a raw \<open>S\<close> that is not symmetric the rows of the result do not sum
  to zero: for \<open>S = [[0,1],[0,0]]\<close> the result is \<open>[[-1,1/2],[1/2,0]]\<close>, with row sums
  \<open>-1/2\<close> and \<open>1/2\<close>.
\<close>

theorem normalise_ctbn_params_row_sums_nonzero:
  "S (normalise_ctbn_params \<lparr> S = [[0,1],[0,0]], J = [[0,0],[0,0]], h = [0,0] \<rparr>)
     = [[-1, 1/2], [1/2, 0]]
   \<and> map sum_list (S (normalise_ctbn_params
         \<lparr> S = [[0,1],[0,0]], J = [[0,0],[0,0]], h = [0,0] \<rparr>)) = [-1/2, 1/2]"
  by (simp add: normalise_ctbn_params_def symmetrise_def row_normalise_def mat_abs_def
      mat_sub_def mat_add_def mat_scale_def diag_def)

text \<open>
  C5. The claim: \<open>normalise_ctbn_params\<close> is idempotent. On the same input a second
  application changes the diagonal of \<open>S\<close>: the first gives \<open>[[-1,1/2],[1/2,0]]\<close>, the
  second \<open>[[-1/2,1/2],[1/2,-1/2]]\<close>.
\<close>

theorem normalise_ctbn_params_not_idempotent:
  "normalise_ctbn_params (normalise_ctbn_params
      \<lparr> S = [[0,1],[0,0]], J = [[0,0],[0,0]], h = [0,0] \<rparr>)
     = \<lparr> S = [[-1/2, 1/2], [1/2, -1/2]], J = [[0,0],[0,0]], h = [0,0] \<rparr>
   \<and> normalise_ctbn_params \<lparr> S = [[0,1],[0,0]], J = [[0,0],[0,0]], h = [0,0] \<rparr>
     = \<lparr> S = [[-1, 1/2], [1/2, 0]], J = [[0,0],[0,0]], h = [0,0] \<rparr>"
  by (simp add: normalise_ctbn_params_def symmetrise_def row_normalise_def mat_abs_def
      mat_sub_def mat_add_def mat_scale_def diag_def)

subsection \<open>Neighbourhood construction fails fast\<close>

lemma list_max_ge: "n \<in> set ns \<Longrightarrow> n \<le> list_max ns"
  unfolding list_max_def by (induction ns) auto

text \<open>
  C9. Whenever the contact matrix is not square, a supplied \<open>xs\<close> or \<open>ys\<close> has a length
  other than the size of \<open>C\<close>, or a supplied \<open>M\<close> is smaller than the number of neighbours
  of some component, \<open>get_Markov_blankets\<close> raises an assertion error with one of its
  messages and returns no tuple. The function does no ODE work at all.
\<close>

theorem get_Markov_blankets_fails_fast:
  assumes "shape C \<noteq> (length C, length C)
         \<or> (\<exists>x. xs = Some x \<and> length x \<noteq> length C)
         \<or> (\<exists>y. ys = Some y \<and> length y \<noteq> length C)
         \<or> (\<exists>m. M = Some m \<and> (\<exists>r \<in> set C. m < length (nonzero r)))"
  shows "\<exists>msg \<in> blanket_messages. get_Markov_blankets C xs ys K M = Inl (AssertionError msg)"
proof -
  have K: "fst (shape C) = length C" by (simp add: shape_def)
  show ?thesis
  proof (cases "shape C \<noteq> (length C, length C)")
    case True
    then have "get_Markov_blankets C xs ys K M = Inl (AssertionError ''C must be a square matrix'')"
      by (simp add: get_Markov_blankets_def K)
    then show ?thesis by (simp add: blanket_messages_def)
  next
    case False
    then have sq: "shape C = (length C, length C)" by simp
    show ?thesis
    proof (cases "case xs of None \<Rightarrow> False | Some x \<Rightarrow> length x \<noteq> length C")
      case True
      then have "get_Markov_blankets C xs ys K M
                   = Inl (AssertionError ''length of xs must equal size of C'')"
        by (simp add: get_Markov_blankets_def K sq)
      then show ?thesis by (simp add: blanket_messages_def)
    next
      case xok: False
      show ?thesis
      proof (cases "case ys of None \<Rightarrow> False | Some y \<Rightarrow> length y \<noteq> length C")
        case True
        then have "get_Markov_blankets C xs ys K M
                     = Inl (AssertionError ''length of ys must equal size of C'')"
          using xok by (simp add: get_Markov_blankets_def K sq)
        then show ?thesis by (simp add: blanket_messages_def)
      next
        case yok: False
        from xok have nx: "\<not> (\<exists>x. xs = Some x \<and> length x \<noteq> length C)" by auto
        from yok have ny: "\<not> (\<exists>y. ys = Some y \<and> length y \<noteq> length C)" by auto
        from assms sq nx ny obtain m r where m: "M = Some m" and r: "r \<in> set C"
          and less: "m < length (nonzero r)" by blast
        from r have ne: "map nonzero C \<noteq> []" by auto
        from r have "length (nonzero r) \<in> set (map length (map nonzero C))" by auto
        then have "length (nonzero r) \<le> list_max (map length (map nonzero C))"
          by (rule list_max_ge)
        with less have small: "\<not> list_max (map length (map nonzero C)) \<le> m" by simp
        have "get_Markov_blankets C xs ys K M
                = Inl (AssertionError
                     ''M must be at least as large as the largest number of neighbors'')"
          using xok yok ne small by (simp add: get_Markov_blankets_def K sq m)
        then show ?thesis by (simp add: blanket_messages_def)
      qed
    qed
  qed
qed

theorem get_Markov_blankets_fails_fast_witness:
  "\<exists>msg \<in> blanket_messages.
     get_Markov_blankets [[0,1],[1,0]] None None None (Some 0) = Inl (AssertionError msg)"
proof -
  have "\<exists>r \<in> set [[0,1],[1,0::int]]. (0::nat) < length (nonzero r)"
    by (simp add: nonzero_def)
  then show ?thesis
    using get_Markov_blankets_fails_fast [of "[[0,1],[1,0]]" None None "Some 0" None] by blast
qed

subsection \<open>Shapes\<close>

lemma square_iff: "square n m \<longleftrightarrow> length m = n \<and> (\<forall>i<n. length (m ! i) = n)"
  by (auto simp add: square_def list_all_length)

lemma square_shape: "square n m \<Longrightarrow> shape m = (n, n)"
  by (cases m) (auto simp add: square_def shape_def)

lemma square_map2:
  "square n a \<Longrightarrow> square n b \<Longrightarrow> square n (map2 (map2 f) a b)"
  by (simp add: square_iff)

lemma square_map: "square n a \<Longrightarrow> square n (map (map f) a)"
  by (simp add: square_iff)

lemma square_offdiag_mask: "square n (offdiag_mask n)"
  by (simp add: square_iff offdiag_mask_def)

lemma square_diag: "length v = n \<Longrightarrow> square n (diag v)"
  by (simp add: square_iff diag_def)

lemma transpose_square:
  assumes "square n m"
  shows "transpose m = map (\<lambda>i. map (\<lambda>j. m ! j ! i) [0..<n]) [0..<n]"
proof -
  have "transpose m = map (\<lambda>i. map (\<lambda>j. m ! j ! i) [0..<length m]) [0..<n]"
    using assms by (intro transpose_rectangle) (auto simp add: square_iff)
  then show ?thesis using assms by (simp add: square_iff)
qed

lemma square_transpose: "square n m \<Longrightarrow> square n (transpose m)"
  by (simp add: transpose_square) (simp add: square_iff)

lemma square_symmetrise: "square n m \<Longrightarrow> square n (symmetrise m)"
  unfolding symmetrise_def mat_scale_def mat_add_def
  by (intro square_map square_map2 square_transpose)

lemma square_row_normalise: "square n m \<Longrightarrow> square n (row_normalise m)"
  unfolding row_normalise_def mat_sub_def
  by (intro square_map2 square_diag) (simp_all add: square_iff)

lemma square_normalised_S: "square n (S p) \<Longrightarrow> square n (S (normalise_ctbn_params p))"
  unfolding normalise_ctbn_params_def mat_abs_def
  by (simp add: square_symmetrise square_row_normalise square_map)

lemma square_q_single:
  assumes "square n (S p)" and "length (h p) = n"
  shows "square n (q_single p)"
proof -
  have "square n (mat_mul (S p) (offdiag_mask n))"
    unfolding mat_mul_def using assms(1) square_offdiag_mask by (rule square_map2)
  moreover have "fst (shape (S p)) = n" using assms(1) by (simp add: square_shape)
  ultimately have "square n (q_single_offdiag p)"
    using assms(2) by (simp add: q_single_offdiag_def square_iff)
  then show ?thesis unfolding q_single_def by (rule square_row_normalise)
qed

lemma collect_Inr: "collect (map (\<lambda>i. Inr (f i)) is) = Inr (map f is)"
  by (induction "is") simp_all

subsection \<open>Exact solutions\<close>

text \<open>A rate matrix: square, every row summing to zero.\<close>

lemma row_normalise_rate_matrix:
  assumes sq: "square n Q" and rows: "\<forall>row \<in> set Q. sum_list row = 0"
  shows "row_normalise Q = Q"
proof -
  have len: "length Q = n" and lenr: "\<And>i. i < n \<Longrightarrow> length (Q ! i) = n"
    using sq by (simp_all add: square_iff)
  have zero: "\<And>i. i < n \<Longrightarrow> sum_list (Q ! i) = 0"
    using rows len by simp
  show ?thesis
    unfolding row_normalise_def mat_sub_def
  proof (rule nth_equalityI)
    show "length (map2 (map2 (-)) Q (diag (map sum_list Q))) = length Q"
      by (simp add: diag_def)
  next
    fix i assume "i < length (map2 (map2 (-)) Q (diag (map sum_list Q)))"
    then have i: "i < n" using len by simp
    have "map2 (-) (Q ! i) (diag (map sum_list Q) ! i) = Q ! i"
    proof (rule nth_equalityI)
      show "length (map2 (-) (Q ! i) (diag (map sum_list Q) ! i)) = length (Q ! i)"
        using i len lenr by (simp add: diag_def)
    next
      fix j assume "j < length (map2 (-) (Q ! i) (diag (map sum_list Q) ! i))"
      then have j: "j < n" using i len lenr by (simp add: diag_def)
      show "map2 (-) (Q ! i) (diag (map sum_list Q) ! i) ! j = Q ! i ! j"
        using i j len lenr zero by (simp add: diag_def)
    qed
    then show "map2 (map2 (-)) Q (diag (map sum_list Q)) ! i = Q ! i"
      using i len by (simp add: diag_def)
  qed
qed

text \<open>
  C7. For a rate matrix \<open>Q\<close> the constructor succeeds, \<open>ExactRho.evaluate(t)\<close> is the
  column \<open>y\<close> of \<open>expm(Q*(T-t))\<close> with every entry clamped to at most 1, and
  \<open>ExactMu.evaluate(t)\<close> is the entrywise product of the row \<open>x\<close> of \<open>expm(Q*t)\<close> with that
  \<open>rho(t)\<close>, divided by \<open>expm(Q*T)[x,y]\<close>, then divided by its sum.
\<close>

theorem exact_solutions_evaluate:
  assumes "square n Q" and "\<forall>row \<in> set Q. sum_list row = 0"
  shows "\<exists>self. ExactRho_init expm' Q T x y = Inr self
     \<and> ExactRho_evaluate expm' self t
         = map (\<lambda>r. min r 1) (map (\<lambda>row. row ! y) (expm' (mat_scale Q (T - t))))
     \<and> ExactMu_evaluate expm' self t
         = (let rho = map (\<lambda>r. min r 1) (map (\<lambda>row. row ! y) (expm' (mat_scale Q (T - t))));
                mu = map2 (\<lambda>e r. e * r / (expm' (mat_scale Q T) ! x ! y))
                       (expm' (mat_scale Q t) ! x) rho
            in map (\<lambda>m. m / sum_list mu) mu)"
proof -
  have sh: "shape Q = (n, n)" using assms(1) by (rule square_shape)
  have rn: "row_normalise Q = Q" using assms by (rule row_normalise_rate_matrix)
  let ?self = "\<lparr> self_N = n, self_q = Q, self_T = T, self_x = x, self_y = y,
                  self_exp_qT = expm' (mat_scale Q T) ! x ! y \<rparr>"
  have init: "ExactRho_init expm' Q T x y = Inr ?self"
    by (simp add: ExactRho_init_def sh rn)
  have rho: "ExactRho_evaluate expm' ?self t
         = map (\<lambda>r. min r 1) (map (\<lambda>row. row ! y) (expm' (mat_scale Q (T - t))))"
    by (simp add: ExactRho_evaluate_def)
  have mu: "ExactMu_evaluate expm' ?self t
         = (let rho = map (\<lambda>r. min r 1) (map (\<lambda>row. row ! y) (expm' (mat_scale Q (T - t))));
                mu = map2 (\<lambda>e r. e * r / (expm' (mat_scale Q T) ! x ! y))
                       (expm' (mat_scale Q t) ! x) rho
            in map (\<lambda>m. m / sum_list mu) mu)"
    unfolding ExactMu_evaluate_def rho by (simp add: Let_def)
  from init rho mu show ?thesis by blast
qed

theorem exact_solutions_evaluate_witness:
  "\<exists>self. ExactRho_init (\<lambda>m. m) [[- 1, 1], [1, - 1]] 1 0 1 = Inr self
     \<and> ExactRho_evaluate (\<lambda>m. m) self (1 / 2) = [1 / 2, - 1 / 2]
     \<and> ExactMu_evaluate (\<lambda>m. m) self (1 / 2) = [1 / 2, 1 / 2]"
proof -
  have a: "square 2 [[- 1, 1], [1, - 1]]" by (simp add: square_def)
  have b: "\<forall>row \<in> set [[- 1, 1], [1, - 1 :: real]]. sum_list row = 0" by simp
  from exact_solutions_evaluate [OF a b, of "\<lambda>m. m" 1 0 1 "1 / 2"]
  show ?thesis by (simp add: mat_scale_def Let_def)
qed

subsection \<open>The guard at the terminal boundary\<close>

lemma max_1_smallest_float32: "max 1 smallest_float32 = 1"
  by (simp add: smallest_float32_def max_def)

lemma safe_recip_1: "safe_recip 1 = 1"
  by (simp add: safe_recip_def max_1_smallest_float32)

lemma mu_deriv_of_state:
  "mu_deriv 0 [[0]] [[0]] example_params [[1, 0]] [[1, 1]] = [- 1, 1]"
  by (simp add: mu_deriv_def gamma_def q_tilde_def example_params_def Let_def mat_mul_def
      offdiag_mask_def shape_def safe_recip_1)

lemma mu_deriv_of_evaluated:
  "mu_deriv 0 [[0]] [[0]] example_params [[0, 1]] [[1, 1]] = [1, - 1]"
  by (simp add: mu_deriv_def gamma_def q_tilde_def example_params_def Let_def mat_mul_def
      offdiag_mask_def shape_def safe_recip_1)

text \<open>
  C6, as stated, fails for \<open>mu_term\<close> at \<open>t < T\<close>: the claim says that the evaluated
  \<open>mu\<close> is used unchanged there, but \<open>mu_term\<close> first puts the current value \<open>mu_i_t\<close> of
  the integration at row \<open>i\<close>. With one component, the evaluated \<open>mu = [[0,1]]\<close>,
  \<open>mu_i_t = [1,0]\<close>, \<open>rho = [[1,1]]\<close>, \<open>t = 0\<close> and \<open>T = 1\<close>, \<open>mu_term\<close> returns \<open>[-1,1]\<close>,
  while the derivative at the evaluated \<open>mu\<close> is \<open>[1,-1]\<close>.
\<close>

theorem mu_term_row_counterexample:
  "(0::real) < 1
   \<and> mu_term 0 [1, 0] (0, [1], [[0]], [[0]], example_params, [\<lambda>t. [0, 1]], [\<lambda>t. [1, 1]], 1)
       = [- 1, 1]
   \<and> map (\<lambda>v. real ([1] ! 0) * v)
        (mu_deriv 0 [[0]] [[0]] example_params
           (fst (eval_mu_rho [\<lambda>t. [0, 1]] [\<lambda>t. [1, 1]] 0))
           (snd (eval_mu_rho [\<lambda>t. [0, 1]] [\<lambda>t. [1, 1]] 0)))
       = [1, - 1]"
  by (simp add: eval_mu_rho_def mu_deriv_of_state mu_deriv_of_evaluated)

text \<open>
  C6, amended. At a time \<open>t\<close> that is not less than \<open>T\<close> the three right-hand sides pass
  the evaluated \<open>rho\<close> matrix in the place of \<open>mu\<close>. At \<open>t < T\<close>, \<open>F_term\<close> and \<open>rho_term\<close>
  pass the evaluated \<open>mu\<close> unchanged, and \<open>mu_term\<close> passes the evaluated \<open>mu\<close> with row
  \<open>i\<close> replaced by the current value \<open>mu_i_t\<close>. In \<open>rho_term\<close> row \<open>i\<close> of \<open>rho\<close> is replaced
  by \<open>rho_i_t\<close> after the guard, at every \<open>t\<close>; a shape error of \<open>rho_deriv\<close> is the error
  of \<open>rho_term\<close>.
\<close>

theorem terms_boundary_guard:
  "F_term t F_t (seq_mask, nbr_idx, nbr_mask, p, mu_solns, rho_solns, T)
     = F_deriv seq_mask nbr_idx nbr_mask p
         (if t < T then map (\<lambda>s. s t) mu_solns else map (\<lambda>s. s t) rho_solns)
         (map (\<lambda>s. s t) rho_solns)
   \<and> rho_term t rho_i_t (i, seq_mask, nbr_idx, nbr_mask, p, mu_solns, rho_solns, T)
     = map_sum id (map (\<lambda>v. real (seq_mask ! i) * v))
         (rho_deriv i nbr_idx nbr_mask p
            (if t < T then map (\<lambda>s. s t) mu_solns else map (\<lambda>s. s t) rho_solns)
            ((map (\<lambda>s. s t) rho_solns)[i := rho_i_t]))
   \<and> mu_term t mu_i_t (i, seq_mask, nbr_idx, nbr_mask, p, mu_solns, rho_solns, T)
     = map (\<lambda>v. real (seq_mask ! i) * v)
         (mu_deriv i nbr_idx nbr_mask p
            (if t < T then (map (\<lambda>s. s t) mu_solns)[i := mu_i_t] else map (\<lambda>s. s t) rho_solns)
            (map (\<lambda>s. s t) rho_solns))"
  by (simp add: eval_mu_rho_def Let_def split: sum.splits)

subsection \<open>The mean-field rate tensor\<close>




lemma mat_mul_offdiag_nth:
  assumes "square N m" and "x < N" and "y < N"
  shows "mat_mul m (offdiag_mask N) ! x ! y = (if x = y then 0 else m ! x ! y)"
  using assms by (simp add: mat_mul_def offdiag_mask_def square_iff)

lemma q_bar_entry:
  assumes a: "a < length idx" and x: "x < N" and y: "y < N"
    and N: "snd (shape mu) = N" and sqS: "square N (S p)" and sqJ: "square N (J p)"
  shows "q_bar idx nbr_idx nbr_mask p mu ! a ! x ! y
           = (if x = y then 0 else S p ! x ! y) * exp (h p ! y)
             * product (map (nbr_factor idx nbr_idx nbr_mask p mu a y)
                          [0..<length (nbr_idx ! (idx ! a))])"
proof -
  let ?M = "length (nbr_idx ! (idx ! a))"
  define exp_2J where "exp_2J = map (map (\<lambda>v. exp (2 * v))) (J p)"
  define mu_nbr where "mu_nbr = map (\<lambda>i. map (\<lambda>n. mu ! n) (nbr_idx ! i)) idx"
  define mu_exp_2JC where "mu_exp_2JC =
           map (\<lambda>a. map (\<lambda>k. map (\<lambda>y.
                  (\<Sum>x\<leftarrow>[0..<N]. mu_nbr ! a ! k ! x * exp_2J ! y ! x) ^ (nbr_mask ! (idx ! a) ! k))
                [0..<N]) [0..<length (mu_nbr ! a)]) [0..<length idx]"
  define S' where "S' = mat_mul (S p) (offdiag_mask N)"
  have q: "q_bar idx nbr_idx nbr_mask p mu =
      map (\<lambda>a. map (\<lambda>x. map (\<lambda>y.
            S' ! x ! y * exp (h p ! y)
              * product (map (\<lambda>k. mu_exp_2JC ! a ! k ! y) [0..<length (mu_exp_2JC ! a)]))
          [0..<N]) [0..<N]) [0..<length idx]"
    unfolding q_bar_def Let_def N exp_2J_def mu_nbr_def mu_exp_2JC_def S'_def ..
  have lenJ: "length (J p) = N" and rowJ: "\<And>i. i < N \<Longrightarrow> length (J p ! i) = N"
    using sqJ by (simp_all add: square_iff)
  have inner: "\<And>n. map (\<lambda>x'. mu ! n ! x' * exp_2J ! y ! x') [0..<N]
        = map (\<lambda>x'. mu ! n ! x' * exp (2 * J p ! y ! x')) [0..<N]"
    unfolding exp_2J_def using y lenJ rowJ by (intro map_cong) simp_all
  have lenM: "length (mu_nbr ! a) = ?M" using a by (simp add: mu_nbr_def)
  have nbr: "\<And>k. k < ?M \<Longrightarrow> mu_nbr ! a ! k = mu ! (nbr_idx ! (idx ! a) ! k)"
    using a by (simp add: mu_nbr_def)
  have lenC: "length (mu_exp_2JC ! a) = ?M"
    using a lenM by (simp add: mu_exp_2JC_def)
  have entry: "\<And>k. k < ?M \<Longrightarrow>
      mu_exp_2JC ! a ! k ! y = nbr_factor idx nbr_idx nbr_mask p mu a y k"
  proof -
    fix k assume k: "k < ?M"
    have "mu_exp_2JC ! a ! k ! y
        = (\<Sum>x'\<leftarrow>[0..<N]. mu_nbr ! a ! k ! x' * exp_2J ! y ! x') ^ (nbr_mask ! (idx ! a) ! k)"
      using a y k lenM by (simp add: mu_exp_2JC_def)
    also have "\<dots> = nbr_factor idx nbr_idx nbr_mask p mu a y k"
      unfolding nbr_factor_def N nbr [OF k] by (simp only: inner)
    finally show "mu_exp_2JC ! a ! k ! y = nbr_factor idx nbr_idx nbr_mask p mu a y k" .
  qed
  have factors: "map (\<lambda>k. mu_exp_2JC ! a ! k ! y) [0..<length (mu_exp_2JC ! a)]
        = map (nbr_factor idx nbr_idx nbr_mask p mu a y) [0..<?M]"
    unfolding lenC by (intro map_cong) (simp_all add: entry)
  have S'_nth: "S' ! x ! y = (if x = y then 0 else S p ! x ! y)"
    unfolding S'_def using sqS x y by (rule mat_mul_offdiag_nth)
  have "q_bar idx nbr_idx nbr_mask p mu ! a ! x ! y
      = S' ! x ! y * exp (h p ! y)
          * product (map (\<lambda>k. mu_exp_2JC ! a ! k ! y) [0..<length (mu_exp_2JC ! a)])"
    unfolding q using a x y by simp
  then show ?thesis unfolding factors S'_nth .
qed






subsection \<open>Padding does not interfere\<close>

lemma q_tilde_entry:
  assumes "a < length idx" and "x < N" and "y < N" and "snd (shape mu) = N"
  shows "q_tilde idx nbr_idx nbr_mask p mu ! a ! x ! y
           = mat_mul (S p) (offdiag_mask N) ! x ! y
             * exp (h p ! y + 2 * (\<Sum>k\<leftarrow>[0..<length (nbr_idx ! (idx ! a))]. \<Sum>x'\<leftarrow>[0..<N].
                      mu ! (nbr_idx ! (idx ! a) ! k) ! x' * real (nbr_mask ! (idx ! a) ! k)
                        * J p ! y ! x'))"
  using assms by (simp add: q_tilde_def Let_def)

lemma gamma_entry:
  assumes "a < length idx" and "x < N" and "y < N" and "snd (shape mu) = N"
  shows "gamma idx nbr_idx nbr_mask p mu rho ! a ! x ! y
           = mu ! (idx ! a) ! x * q_tilde idx nbr_idx nbr_mask p mu ! a ! x ! y
             * rho ! (idx ! a) ! y * safe_recip (rho ! (idx ! a) ! x)"
  using assms by (simp add: gamma_def Let_def)

lemma F_mask_entry:
  assumes "i < length seq_mask" and "x < N" and "y < N"
  shows "F_mask seq_mask N ! i ! x ! y = real (seq_mask ! i) * (if x = y then 0 else 1)"
  using assms by (simp add: F_mask_def offdiag_mask_def)

lemma nbr_factor_cong:
  assumes "snd (shape mu) = snd (shape mu')"
    and "nbr_mask ! (idx ! a) ! k \<noteq> 0 \<Longrightarrow>
           mu ! (nbr_idx ! (idx ! a) ! k) = mu' ! (nbr_idx ! (idx ! a) ! k)"
  shows "nbr_factor idx nbr_idx nbr_mask p mu a y k = nbr_factor idx nbr_idx nbr_mask p mu' a y k"
  using assms by (cases "nbr_mask ! (idx ! a) ! k = 0") (simp_all add: nbr_factor_def)

text \<open>
  Two pairs of marginal and potential matrices agree on a component when the rows of the
  component are the same, and on every neighbour of it that its mask lets in.
\<close>

lemma q_bar_entry_cong:
  assumes a: "a < length idx" and x: "x < N" and y: "y < N"
    and N: "snd (shape mu) = N" and N': "snd (shape mu') = N"
    and sqS: "square N (S p)" and sqJ: "square N (J p)"
    and nb: "\<And>k. k < length (nbr_idx ! (idx ! a)) \<Longrightarrow> nbr_mask ! (idx ! a) ! k \<noteq> 0 \<Longrightarrow>
               mu ! (nbr_idx ! (idx ! a) ! k) = mu' ! (nbr_idx ! (idx ! a) ! k)"
  shows "q_bar idx nbr_idx nbr_mask p mu ! a ! x ! y = q_bar idx nbr_idx nbr_mask p mu' ! a ! x ! y"
proof -
  have e: "map (nbr_factor idx nbr_idx nbr_mask p mu a y) [0..<length (nbr_idx ! (idx ! a))]
      = map (nbr_factor idx nbr_idx nbr_mask p mu' a y) [0..<length (nbr_idx ! (idx ! a))]"
    using N N' nb by (intro map_cong refl nbr_factor_cong) simp_all
  show ?thesis
    unfolding q_bar_entry [OF a x y N sqS sqJ] q_bar_entry [OF a x y N' sqS sqJ] e
    by (rule refl)
qed

lemma q_tilde_entry_cong:
  assumes a: "a < length idx" and x: "x < N" and y: "y < N"
    and N: "snd (shape mu) = N" and N': "snd (shape mu') = N"
    and nb: "\<And>k. k < length (nbr_idx ! (idx ! a)) \<Longrightarrow> nbr_mask ! (idx ! a) ! k \<noteq> 0 \<Longrightarrow>
               mu ! (nbr_idx ! (idx ! a) ! k) = mu' ! (nbr_idx ! (idx ! a) ! k)"
  shows "q_tilde idx nbr_idx nbr_mask p mu ! a ! x ! y
           = q_tilde idx nbr_idx nbr_mask p mu' ! a ! x ! y"
proof -
  have e: "map (\<lambda>k. \<Sum>x'\<leftarrow>[0..<N]. mu ! (nbr_idx ! (idx ! a) ! k) ! x'
                    * real (nbr_mask ! (idx ! a) ! k) * J p ! y ! x')
            [0..<length (nbr_idx ! (idx ! a))]
      = map (\<lambda>k. \<Sum>x'\<leftarrow>[0..<N]. mu' ! (nbr_idx ! (idx ! a) ! k) ! x'
                    * real (nbr_mask ! (idx ! a) ! k) * J p ! y ! x')
            [0..<length (nbr_idx ! (idx ! a))]"
  proof (intro map_cong refl)
    fix k assume "k \<in> set [0..<length (nbr_idx ! (idx ! a))]"
    then have k: "k < length (nbr_idx ! (idx ! a))" by simp
    show "(\<Sum>x'\<leftarrow>[0..<N]. mu ! (nbr_idx ! (idx ! a) ! k) ! x'
                    * real (nbr_mask ! (idx ! a) ! k) * J p ! y ! x')
        = (\<Sum>x'\<leftarrow>[0..<N]. mu' ! (nbr_idx ! (idx ! a) ! k) ! x'
                    * real (nbr_mask ! (idx ! a) ! k) * J p ! y ! x')"
      using nb [OF k] by (cases "nbr_mask ! (idx ! a) ! k = 0") simp_all
  qed
  show ?thesis
    unfolding q_tilde_entry [OF a x y N] q_tilde_entry [OF a x y N'] e by (rule refl)
qed

lemma gamma_entry_cong:
  assumes a: "a < length idx" and x: "x < N" and y: "y < N"
    and N: "snd (shape mu) = N" and N': "snd (shape mu') = N"
    and own: "mu ! (idx ! a) = mu' ! (idx ! a)" "rho ! (idx ! a) = rho' ! (idx ! a)"
    and nb: "\<And>k. k < length (nbr_idx ! (idx ! a)) \<Longrightarrow> nbr_mask ! (idx ! a) ! k \<noteq> 0 \<Longrightarrow>
               mu ! (nbr_idx ! (idx ! a) ! k) = mu' ! (nbr_idx ! (idx ! a) ! k)"
  shows "gamma idx nbr_idx nbr_mask p mu rho ! a ! x ! y
           = gamma idx nbr_idx nbr_mask p mu' rho' ! a ! x ! y"
proof -
  have qt: "q_tilde idx nbr_idx nbr_mask p mu ! a ! x ! y
              = q_tilde idx nbr_idx nbr_mask p mu' ! a ! x ! y"
    using a x y N N' nb by (rule q_tilde_entry_cong)
  show ?thesis
    unfolding gamma_entry [OF a x y N] gamma_entry [OF a x y N'] qt own by (rule refl)
qed

lemma double_sum_masked_zero:
  assumes "\<And>x y. x < N \<Longrightarrow> y < N \<Longrightarrow> m x y = 0"
  shows "(\<Sum>x\<leftarrow>[0..<N]. \<Sum>y\<leftarrow>[0..<N]. f x y * m x y) = (0::real)"
proof -
  have "map (\<lambda>x. \<Sum>y\<leftarrow>[0..<N]. f x y * m x y) [0..<N] = map (\<lambda>x. 0) [0..<N]"
  proof (intro map_cong refl)
    fix x assume "x \<in> set [0..<N]"
    then have x: "x < N" by simp
    have "map (\<lambda>y. f x y * m x y) [0..<N] = map (\<lambda>y. 0) [0..<N]"
      using assms [OF x] by (intro map_cong refl) simp
    then have "(\<Sum>y\<leftarrow>[0..<N]. f x y * m x y) = (\<Sum>y\<leftarrow>[0..<N]. 0)" by (rule arg_cong)
    then show "(\<Sum>y\<leftarrow>[0..<N]. f x y * m x y) = 0" by simp
  qed
  then have "(\<Sum>x\<leftarrow>[0..<N]. \<Sum>y\<leftarrow>[0..<N]. f x y * m x y) = (\<Sum>x\<leftarrow>[0..<N]. 0)"
    by (rule arg_cong)
  then show ?thesis by simp
qed

lemma double_sum_cong:
  assumes "\<And>x y. x < N \<Longrightarrow> y < N \<Longrightarrow> f x y = g x y"
  shows "(\<Sum>x\<leftarrow>[0..<N]. \<Sum>y\<leftarrow>[0..<N]. f x y) = (\<Sum>x\<leftarrow>[0..<N]. \<Sum>y\<leftarrow>[0..<N]. (g x y :: real))"
proof -
  have "map (\<lambda>x. \<Sum>y\<leftarrow>[0..<N]. f x y) [0..<N] = map (\<lambda>x. \<Sum>y\<leftarrow>[0..<N]. g x y) [0..<N]"
  proof (intro map_cong refl)
    fix x assume "x \<in> set [0..<N]"
    then have x: "x < N" by simp
    have "map (\<lambda>y. f x y) [0..<N] = map (\<lambda>y. g x y) [0..<N]"
      using assms [OF x] by (intro map_cong refl) simp
    then show "(\<Sum>y\<leftarrow>[0..<N]. f x y) = (\<Sum>y\<leftarrow>[0..<N]. g x y)" by (rule arg_cong)
  qed
  then show ?thesis by (rule arg_cong)
qed

lemma F_contrib_padded:
  assumes i: "i < length seq_mask" and pad: "seq_mask ! i = 0"
  shows "F_contrib seq_mask nbr_idx nbr_mask p mu rho i = 0"
proof -
  let ?N = "snd (shape mu)"
  have m: "\<And>x y. x < ?N \<Longrightarrow> y < ?N \<Longrightarrow> F_mask seq_mask ?N ! i ! x ! y = 0"
    using i pad by (simp add: F_mask_entry)
  show ?thesis
    unfolding F_contrib_def Let_def
    by (simp only: double_sum_masked_zero [where m = "\<lambda>x y. F_mask seq_mask ?N ! i ! x ! y", OF m])
qed

lemma F_contrib_cong:
  assumes i: "i < K"
    and sh: "shape mu = (K, N)" and sh': "shape mu' = (K, N)"
    and sqS: "square N (S p)" and sqJ: "square N (J p)"
    and own: "mu ! i = mu' ! i" "rho ! i = rho' ! i"
    and nb: "\<And>k. k < length (nbr_idx ! i) \<Longrightarrow> nbr_mask ! i ! k \<noteq> 0 \<Longrightarrow>
               mu ! (nbr_idx ! i ! k) = mu' ! (nbr_idx ! i ! k)"
  shows "F_contrib seq_mask nbr_idx nbr_mask p mu rho i
           = F_contrib seq_mask nbr_idx nbr_mask p mu' rho' i"
proof -
  have N: "snd (shape mu) = N" and N': "snd (shape mu') = N"
    and K: "fst (shape mu) = K" and K': "fst (shape mu') = K"
    using sh sh' by simp_all
  have il: "i < length [0..<K]" and ii: "[0..<K] ! i = i" using i by simp_all
  have own': "mu ! ([0..<K] ! i) = mu' ! ([0..<K] ! i)" "rho ! ([0..<K] ! i) = rho' ! ([0..<K] ! i)"
    using own by (simp_all only: ii)
  have nb': "\<And>k. k < length (nbr_idx ! ([0..<K] ! i)) \<Longrightarrow> nbr_mask ! ([0..<K] ! i) ! k \<noteq> 0 \<Longrightarrow>
               mu ! (nbr_idx ! ([0..<K] ! i) ! k) = mu' ! (nbr_idx ! ([0..<K] ! i) ! k)"
    using nb by (simp only: ii)
  have qb: "\<And>x y. x < N \<Longrightarrow> y < N \<Longrightarrow>
      q_bar [0..<K] nbr_idx nbr_mask p mu ! i ! x ! y
        = q_bar [0..<K] nbr_idx nbr_mask p mu' ! i ! x ! y"
    using il N N' sqS sqJ nb' by (intro q_bar_entry_cong) 
  have qt: "\<And>x y. x < N \<Longrightarrow> y < N \<Longrightarrow>
      q_tilde [0..<K] nbr_idx nbr_mask p mu ! i ! x ! y
        = q_tilde [0..<K] nbr_idx nbr_mask p mu' ! i ! x ! y"
    using il N N' nb' by (intro q_tilde_entry_cong)
  have ga: "\<And>x y. x < N \<Longrightarrow> y < N \<Longrightarrow>
      gamma [0..<K] nbr_idx nbr_mask p mu rho ! i ! x ! y
        = gamma [0..<K] nbr_idx nbr_mask p mu' rho' ! i ! x ! y"
    using il N N' own' nb' by (intro gamma_entry_cong)
  show ?thesis
    unfolding F_contrib_def Let_def N N' K K'
    by (intro arg_cong2 [where f = "(+)"] arg_cong [where f = uminus] double_sum_cong)
       (simp_all add: qb qt ga own)
qed

text \<open>
  C8. In exact arithmetic the claim holds, as the lemma below states: for \<open>mu\<close> and
  \<open>mu'\<close> of shape \<open>(K, N)\<close>, when no real component has a masked-in padded neighbour,
  every padded component contributes zero to \<open>dF\<close> and \<open>F_deriv\<close> returns the same value
  on \<open>(mu, rho)\<close> and on \<open>(mu', rho')\<close> that agree on the rows of the real components.
  The program computes in single precision and masks by multiplication: \<open>gamma\<close> and
  \<open>gamma_coeff\<close> are computed for the padded rows too and multiplied by the mask
  afterwards, so a padded row whose \<open>gamma\<close> overflows gives \<open>inf * 0 = NaN\<close> and the
  sum is \<open>NaN\<close>. Overflow and \<open>NaN\<close> are outside this model; the lemma says nothing
  about inputs where they occur.
\<close>

lemma F_deriv_padding_exact:
  assumes "shape mu = (K, N)" and "shape mu' = (K, N)" and "length seq_mask = K"
    and "square N (S p)" and "square N (J p)"
    and "\<forall>i<K. seq_mask ! i \<noteq> 0 \<longrightarrow> mu ! i = mu' ! i \<and> rho ! i = rho' ! i"
    and "\<forall>i<K. seq_mask ! i \<noteq> 0 \<longrightarrow>
           (\<forall>k<length (nbr_idx ! i). nbr_mask ! i ! k \<noteq> 0 \<longrightarrow>
              nbr_idx ! i ! k < K \<and> seq_mask ! (nbr_idx ! i ! k) \<noteq> 0)"
  shows "(\<forall>i<K. seq_mask ! i = 0 \<longrightarrow> F_contrib seq_mask nbr_idx nbr_mask p mu rho i = 0)
       \<and> F_deriv seq_mask nbr_idx nbr_mask p mu rho = F_deriv seq_mask nbr_idx nbr_mask p mu' rho'"
proof
  show "\<forall>i<K. seq_mask ! i = 0 \<longrightarrow> F_contrib seq_mask nbr_idx nbr_mask p mu rho i = 0"
    using assms(3) by (simp add: F_contrib_padded)
next
  have "map (F_contrib seq_mask nbr_idx nbr_mask p mu rho) [0..<K]
      = map (F_contrib seq_mask nbr_idx nbr_mask p mu' rho') [0..<K]"
  proof (intro map_cong refl)
    fix i assume "i \<in> set [0..<K]"
    then have i: "i < K" by simp
    show "F_contrib seq_mask nbr_idx nbr_mask p mu rho i
            = F_contrib seq_mask nbr_idx nbr_mask p mu' rho' i"
    proof (cases "seq_mask ! i = 0")
      case True
      then show ?thesis using i assms(3) by (simp add: F_contrib_padded)
    next
      case False
      with assms(6) i have own: "mu ! i = mu' ! i" "rho ! i = rho' ! i" by simp_all
      have nb: "\<And>k. k < length (nbr_idx ! i) \<Longrightarrow> nbr_mask ! i ! k \<noteq> 0 \<Longrightarrow>
               mu ! (nbr_idx ! i ! k) = mu' ! (nbr_idx ! i ! k)"
      proof -
        fix k assume "k < length (nbr_idx ! i)" and "nbr_mask ! i ! k \<noteq> 0"
        with assms(7) i False
        have "nbr_idx ! i ! k < K" and "seq_mask ! (nbr_idx ! i ! k) \<noteq> 0" by simp_all
        with assms(6) show "mu ! (nbr_idx ! i ! k) = mu' ! (nbr_idx ! i ! k)" by simp
      qed
      from i assms(1,2,4,5) own nb show ?thesis by (rule F_contrib_cong)
    qed
  qed
  then have "sum_list (map (F_contrib seq_mask nbr_idx nbr_mask p mu rho) [0..<K])
      = sum_list (map (F_contrib seq_mask nbr_idx nbr_mask p mu' rho') [0..<K])"
    by (rule arg_cong)
  then show "F_deriv seq_mask nbr_idx nbr_mask p mu rho
               = F_deriv seq_mask nbr_idx nbr_mask p mu' rho'"
    using assms(1,2) by (simp add: F_deriv_def)
qed

subsection \<open>When the solves raise\<close>

lemma q_bar_cond_cases:
  "if broadcastable (snd (shape nbr_idx)) (snd (shape mu))
   then \<exists>v. q_bar_cond i nbr_idx nbr_mask p mu = Inr v
   else q_bar_cond i nbr_idx nbr_mask p mu = Inl ValueError"
  by (simp add: q_bar_cond_def Let_def)

lemma psi_cases:
  "if broadcastable (snd (shape nbr_idx)) (snd (shape mu))
   then \<exists>v. psi i nbr_idx nbr_mask p mu rho = Inr v
   else psi i nbr_idx nbr_mask p mu rho = Inl ValueError"
proof (cases "broadcastable (snd (shape nbr_idx)) (snd (shape mu))")
  case True
  with q_bar_cond_cases [of nbr_idx mu i nbr_mask p]
  obtain v where "q_bar_cond i nbr_idx nbr_mask p mu = Inr v" by auto
  then show ?thesis using True by (simp add: psi_def Let_def)
next
  case False
  with q_bar_cond_cases [of nbr_idx mu i nbr_mask p]
  have "q_bar_cond i nbr_idx nbr_mask p mu = Inl ValueError" by simp
  then show ?thesis using False by (simp add: psi_def Let_def)
qed

lemma rho_deriv_cases:
  "if broadcastable (snd (shape nbr_idx)) (snd (shape mu))
   then \<exists>v. rho_deriv i nbr_idx nbr_mask p mu rho = Inr v
   else rho_deriv i nbr_idx nbr_mask p mu rho = Inl ValueError"
proof (cases "broadcastable (snd (shape nbr_idx)) (snd (shape mu))")
  case True
  with psi_cases [of nbr_idx mu i nbr_mask p rho]
  obtain v where "psi i nbr_idx nbr_mask p mu rho = Inr v" by auto
  then show ?thesis using True by (simp add: rho_deriv_def Let_def)
next
  case False
  with psi_cases [of nbr_idx mu i nbr_mask p rho]
  have "psi i nbr_idx nbr_mask p mu rho = Inl ValueError" by simp
  then show ?thesis using False by (simp add: rho_deriv_def Let_def)
qed

lemma rho_term_at_T_cases:
  "if broadcastable (snd (shape nbr_idx)) (width rho_solns T)
   then \<exists>v. rho_term T y (i, seq_mask, nbr_idx, nbr_mask, p, mu_solns, rho_solns, T) = Inr v
   else rho_term T y (i, seq_mask, nbr_idx, nbr_mask, p, mu_solns, rho_solns, T) = Inl ValueError"
proof (cases "broadcastable (snd (shape nbr_idx)) (width rho_solns T)")
  case True
  with rho_deriv_cases [of nbr_idx "map (\<lambda>s. s T) rho_solns" i nbr_mask p
      "(map (\<lambda>s. s T) rho_solns)[i := y]"]
  obtain v where "rho_deriv i nbr_idx nbr_mask p (map (\<lambda>s. s T) rho_solns)
      ((map (\<lambda>s. s T) rho_solns)[i := y]) = Inr v"
    by (auto simp add: width_def)
  then show ?thesis using True by (simp add: eval_mu_rho_def)
next
  case False
  with rho_deriv_cases [of nbr_idx "map (\<lambda>s. s T) rho_solns" i nbr_mask p
      "(map (\<lambda>s. s T) rho_solns)[i := y]"]
  have "rho_deriv i nbr_idx nbr_mask p (map (\<lambda>s. s T) rho_solns)
      ((map (\<lambda>s. s T) rho_solns)[i := y]) = Inl ValueError"
    by (simp add: width_def)
  then show ?thesis using False by (simp add: eval_mu_rho_def)
qed

lemma solve_rho_cases:
  "solve_rho lib i y0 seq_mask nbr_idx nbr_mask p mu_solns rho_solns T =
     (if broadcastable (snd (shape nbr_idx)) (width rho_solns T)
      then Inr (diffeqsolve_dense lib
             (rho_field (i, seq_mask, nbr_idx, nbr_mask, p, mu_solns, rho_solns, T)) T 0 y0)
      else Inl ValueError)"
proof (cases "broadcastable (snd (shape nbr_idx)) (width rho_solns T)")
  case True
  with rho_term_at_T_cases [of nbr_idx rho_solns T y0 i seq_mask nbr_mask p mu_solns]
  obtain v where "rho_term T y0 (i, seq_mask, nbr_idx, nbr_mask, p, mu_solns, rho_solns, T) = Inr v"
    by auto
  then show ?thesis using True by (simp add: solve_rho_def)
next
  case False
  with rho_term_at_T_cases [of nbr_idx rho_solns T y0 i seq_mask nbr_mask p mu_solns]
  have "rho_term T y0 (i, seq_mask, nbr_idx, nbr_mask, p, mu_solns, rho_solns, T) = Inl ValueError"
    by simp
  then show ?thesis using False by (simp add: solve_rho_def)
qed

lemma replace_nth_list_update: "replace_nth xs n v = xs[n := v]"
  by (rule nth_equalityI) (simp_all add: replace_nth_def nth_enumerate_eq nth_list_update)

lemma loop_body_fun_cases:
  "loop_body_fun lib c (mu_solns, rho_solns) i =
     (if broadcastable (snd (shape (c_nbr_idx c))) (width rho_solns (c_T c))
      then
       (let new_rho_i = diffeqsolve_dense lib
              (rho_field (i, c_seq_mask c, c_nbr_idx c, c_nbr_mask c, c_params c,
                          mu_solns, rho_solns, c_T c))
              (c_T c) 0 (c_rho_T c ! i);
            new_mu_i = diffeqsolve_dense lib
              (\<lambda>t mu_i_t. mu_term t mu_i_t
                 (i, c_seq_mask c, c_nbr_idx c, c_nbr_mask c, c_params c,
                  mu_solns, rho_solns[i := new_rho_i], c_T c))
              0 (c_T c) (c_mu_0 c ! i)
        in Inr (mu_solns[i := new_mu_i], rho_solns[i := new_rho_i]))
      else Inl ValueError)"
  by (simp add: loop_body_fun_def solve_rho_cases solve_mu_def replace_nth_list_update Let_def)

lemma update_fun_sweep_in:
  "permutation lib (c_prng c) (c_K c) \<noteq> [] \<Longrightarrow>
   update_fun lib c (inner, last_i) = sweep_in lib c (sweep_order lib c last_i) (inner, last_i)"
  by (simp add: update_fun_def sweep_in_def Let_def)

lemma sweep_order_cases:
  "permutation lib (c_prng c) (c_K c) \<noteq> [] \<Longrightarrow>
   sweep_order lib c last_i =
     (if last_i = int (hd (permutation lib (c_prng c) (c_K c)))
      then rev (permutation lib (c_prng c) (c_K c))
      else permutation lib (c_prng c) (c_K c))"
  by (simp add: sweep_order_def hd_conv_nth)

subsection \<open>One sweep\<close>

text \<open>
  C3. One sweep, given the permutation that the library drew (a permutation of the
  component indices \<open>[0, K)\<close>; that the draw is uniform is the library's contract). The
  order of the sweep is the permutation, reversed when its first element is the index
  that the previous sweep updated last, so every component is visited exactly once; the
  sweep scans this order from left to right, each visit starting from the arrays the
  visit before returned; a visit of \<open>i\<close> passes the integrator the field of \<open>rho_term\<close> on
  the current arrays, puts the solution at position \<open>i\<close> of \<open>rho_solns\<close>, then passes the
  integrator the field of \<open>mu_term\<close> on the arrays that hold this new \<open>rho_i\<close> and puts the
  solution at position \<open>i\<close> of \<open>mu_solns\<close>; the last element of the order is the new last
  index. A visit raises when the shapes of the neighbour mask and of the solutions
  cannot be broadcast.
\<close>

theorem sweep_is_sequential:
  assumes "distinct (permutation lib (c_prng c) (c_K c))"
    and "set (permutation lib (c_prng c) (c_K c)) = {0..<c_K c}" and "0 < c_K c"
  shows "distinct (sweep_order lib c last_i) \<and> set (sweep_order lib c last_i) = {0..<c_K c}
       \<and> sweep_order lib c last_i =
           (if last_i = int (hd (permutation lib (c_prng c) (c_K c)))
            then rev (permutation lib (c_prng c) (c_K c))
            else permutation lib (c_prng c) (c_K c))
       \<and> update_fun lib c (inner, last_i) =
           (case scan (loop_body_fun lib c) inner (sweep_order lib c last_i) of
              Inl e \<Rightarrow> Inl e
            | Inr inner' \<Rightarrow> Inr (inner', int (last (sweep_order lib c last_i))))
       \<and> (\<forall>state i rest. scan (loop_body_fun lib c) state (i # rest) =
             (case loop_body_fun lib c state i of
                Inl e \<Rightarrow> Inl e
              | Inr state' \<Rightarrow> scan (loop_body_fun lib c) state' rest))
       \<and> (\<forall>mu_solns rho_solns i.
            loop_body_fun lib c (mu_solns, rho_solns) i =
             (if broadcastable (snd (shape (c_nbr_idx c))) (width rho_solns (c_T c))
              then
               (let new_rho_i = diffeqsolve_dense lib
                      (rho_field (i, c_seq_mask c, c_nbr_idx c, c_nbr_mask c, c_params c,
                                  mu_solns, rho_solns, c_T c))
                      (c_T c) 0 (c_rho_T c ! i);
                    new_mu_i = diffeqsolve_dense lib
                      (\<lambda>t mu_i_t. mu_term t mu_i_t
                         (i, c_seq_mask c, c_nbr_idx c, c_nbr_mask c, c_params c,
                          mu_solns, rho_solns[i := new_rho_i], c_T c))
                      0 (c_T c) (c_mu_0 c ! i)
                in Inr (mu_solns[i := new_mu_i], rho_solns[i := new_rho_i]))
              else Inl ValueError))"
proof -
  let ?p = "permutation lib (c_prng c) (c_K c)"
  have ne: "?p \<noteq> []" using assms(2,3) by auto
  have so: "sweep_order lib c last_i = (if last_i = int (hd ?p) then rev ?p else ?p)"
    using ne by (rule sweep_order_cases)
  have ms: "distinct (sweep_order lib c last_i) \<and> set (sweep_order lib c last_i) = {0..<c_K c}"
    unfolding so using assms(1,2) by simp
  have up: "update_fun lib c (inner, last_i) =
           (case scan (loop_body_fun lib c) inner (sweep_order lib c last_i) of
              Inl e \<Rightarrow> Inl e
            | Inr inner' \<Rightarrow> Inr (inner', int (last (sweep_order lib c last_i))))"
    using ne by (simp add: update_fun_def Let_def)
  from ms so up show ?thesis
    by (simp only: loop_body_fun_cases scan.simps) simp
qed

theorem sweep_is_sequential_witness:
  "sweep_order example_lib pair_closure 0 = [1, 0]
   \<and> update_fun example_lib pair_closure (pair_state, 0)
       = Inr (([\<lambda>t. [1, 0], \<lambda>t. [0, 1]], [\<lambda>t. [0, 1], \<lambda>t. [1, 0]]), 0)"
proof -
  have K: "c_K pair_closure = 2" and M: "snd (shape (c_nbr_idx pair_closure)) = 1"
    and mu0: "c_mu_0 pair_closure = [[1, 0], [0, 1]]"
    and rhoT: "c_rho_T pair_closure = [[0, 1], [1, 0]]"
    by (simp_all add: pair_closure_def ctbn_closure_def shape_def Let_def example_params_def eye_def)
  have u: "[0..<2] = [0, 1 :: nat]" by (simp add: upt_conv_Cons numeral_2_eq_2)
  have p: "permutation example_lib (c_prng pair_closure) (c_K pair_closure) = [0, 1]"
    by (simp add: K example_lib_def u)
  have h0: "distinct (permutation example_lib (c_prng pair_closure) (c_K pair_closure))"
    by (simp add: p)
  have h1: "set (permutation example_lib (c_prng pair_closure) (c_K pair_closure))
              = {0..<c_K pair_closure}"
  proof -
    have "set [0..<c_K pair_closure] = {0..<c_K pair_closure}" by (rule set_upt)
    then show ?thesis by (simp add: K example_lib_def)
  qed
  have h2: "0 < c_K pair_closure" by (simp add: K)
  have bc: "\<And>N. broadcastable (Suc 0) N" by (simp add: broadcastable_def)
  have dense: "\<And>f t0 t1 y0. diffeqsolve_dense example_lib f t0 t1 y0 = (\<lambda>t. y0)"
    by (simp add: example_lib_def)
  from sweep_is_sequential [OF h0 h1 h2, of 0 "pair_state"]
  show ?thesis
    by (simp add: p pair_state_def M bc dense mu0 rhoT Let_def)
qed

subsection \<open>The orders of all sweeps\<close>

lemma sweep_order_from_start:
  assumes d: "distinct (permutation lib (c_prng c) (c_K c))"
    and ne: "permutation lib (c_prng c) (c_K c) \<noteq> []"
    and l: "last_i = - 1 \<or> last_i = int (last (permutation lib (c_prng c) (c_K c)))"
  shows "sweep_order lib c last_i = permutation lib (c_prng c) (c_K c)"
proof -
  let ?p = "permutation lib (c_prng c) (c_K c)"
  show ?thesis
  proof (cases "last_i = int (hd ?p)")
    case False
    then show ?thesis using ne by (simp add: sweep_order_cases)
  next
    case True
    with l have "hd ?p = last ?p" by auto
    then have "?p ! 0 = ?p ! (length ?p - 1)" using ne by (simp add: hd_conv_nth last_conv_nth)
    with d ne have "0 = length ?p - 1" by (simp add: nth_eq_iff_index_eq)
    then have "length ?p = 1" using ne by (cases ?p) auto
    then have "rev ?p = ?p" by (cases ?p) auto
    then show ?thesis using ne True by (simp add: sweep_order_cases)
  qed
qed

lemma sweeps_from_start:
  assumes d: "distinct (permutation lib (c_prng c) (c_K c))"
    and ne: "permutation lib (c_prng c) (c_K c) \<noteq> []"
  shows "snd state = - 1 \<or> snd state = int (last (permutation lib (c_prng c) (c_K c))) \<Longrightarrow>
         sweeps (update_fun lib c) n state
           = sweeps_in lib c (replicate n (permutation lib (c_prng c) (c_K c))) state"
proof (induction n arbitrary: state)
  case 0
  then show ?case by simp
next
  case (Suc n)
  let ?p = "permutation lib (c_prng c) (c_K c)"
  obtain inner last_i where st: "state = (inner, last_i)" by (cases state)
  with Suc.prems have l: "last_i = - 1 \<or> last_i = int (last ?p)" by simp
  have so: "sweep_order lib c last_i = ?p" using d ne l by (rule sweep_order_from_start)
  have up: "update_fun lib c state = sweep_in lib c ?p state"
    unfolding st using update_fun_sweep_in [OF ne, of inner last_i] so by simp
  show ?case
  proof (cases "sweep_in lib c ?p state")
    case (Inl e)
    then show ?thesis using up by simp
  next
    case (Inr state')
    then have "snd state' = int (last ?p)" by (auto simp add: sweep_in_def split: sum.splits)
    then have "sweeps (update_fun lib c) n state' = sweeps_in lib c (replicate n ?p) state'"
      by (intro Suc.IH) simp
    then show ?thesis using up Inr by simp
  qed
qed

text \<open>
  C10. The key is a variable of the closure; no state of the loop holds it and nothing
  splits it. So the sweep that \<open>update_fun\<close> runs from any state scans the one permutation
  \<open>permutation(prng, K)\<close> or its reversal. From the state the driver starts with, whose
  last index is \<open>-1\<close>, every one of the \<open>n\<close> sweeps scans that permutation itself: with
  distinct elements the reversal never happens.
\<close>

theorem sweeps_reuse_one_permutation:
  assumes "distinct (permutation lib (c_prng c) (c_K c))"
    and "permutation lib (c_prng c) (c_K c) \<noteq> []"
  shows "update_fun lib c (inner, last_i) = sweep_in lib c (sweep_order lib c last_i) (inner, last_i)
       \<and> (sweep_order lib c last_i = permutation lib (c_prng c) (c_K c)
            \<or> sweep_order lib c last_i = rev (permutation lib (c_prng c) (c_K c)))
       \<and> sweeps (update_fun lib c) n (inner, - 1)
           = sweeps_in lib c (replicate n (permutation lib (c_prng c) (c_K c))) (inner, - 1)"
proof -
  have a: "update_fun lib c (inner, last_i)
             = sweep_in lib c (sweep_order lib c last_i) (inner, last_i)"
    using assms(2) by (rule update_fun_sweep_in)
  have b: "sweep_order lib c last_i = permutation lib (c_prng c) (c_K c)
            \<or> sweep_order lib c last_i = rev (permutation lib (c_prng c) (c_K c))"
    using assms(2) by (simp add: sweep_order_cases)
  have c: "sweeps (update_fun lib c) n (inner, - 1)
           = sweeps_in lib c (replicate n (permutation lib (c_prng c) (c_K c))) (inner, - 1)"
    using assms by (intro sweeps_from_start) simp_all
  from a b c show ?thesis by blast
qed

theorem sweeps_reuse_one_permutation_witness:
  "sweep_order rotating_lib triple_closure 2 = [1, 0, 2]
   \<and> update_fun rotating_lib triple_closure (triple_state, 2)
       = sweep_in rotating_lib triple_closure [1, 0, 2] (triple_state, 2)
   \<and> sweeps (update_fun rotating_lib triple_closure) 2 (triple_state, - 1)
       = sweeps_in rotating_lib triple_closure [[2, 0, 1], [2, 0, 1]] (triple_state, - 1)
   \<and> sweeps_in rotating_lib triple_closure [[2, 0, 1], [2, 0, 1]] (triple_state, - 1)
       = Inr (([\<lambda>t. [1, 0], \<lambda>t. [0, 1], \<lambda>t. [1, 0]],
               [\<lambda>t. [0, 1], \<lambda>t. [1, 0], \<lambda>t. [0, 1]]), 1)"
proof -
  have M: "snd (shape (c_nbr_idx triple_closure)) = 1"
    and mu0: "c_mu_0 triple_closure = [[1, 0], [0, 1], [1, 0]]"
    and rhoT: "c_rho_T triple_closure = [[0, 1], [1, 0], [0, 1]]"
    by (simp_all add: triple_closure_def ctbn_closure_def shape_def Let_def example_params_def
        eye_def)
  have p: "permutation rotating_lib (c_prng triple_closure) (c_K triple_closure) = [2, 0, 1]"
    by (simp add: rotating_lib_def)
  have h1: "distinct (permutation rotating_lib (c_prng triple_closure) (c_K triple_closure))"
    and h2: "permutation rotating_lib (c_prng triple_closure) (c_K triple_closure) \<noteq> []"
    by (simp_all add: p)
  have so: "sweep_order rotating_lib triple_closure 2 = [1, 0, 2]"
    by (simp add: sweep_order_def p)
  have bc: "\<And>N. broadcastable (Suc 0) N" by (simp add: broadcastable_def)
  have dense: "\<And>f t0 t1 y0. diffeqsolve_dense rotating_lib f t0 t1 y0 = (\<lambda>t. y0)"
    by (simp add: rotating_lib_def example_lib_def)
  have run: "sweeps_in rotating_lib triple_closure [[2, 0, 1], [2, 0, 1]] (triple_state, - 1)
       = Inr (([\<lambda>t. [1, 0], \<lambda>t. [0, 1], \<lambda>t. [1, 0]],
               [\<lambda>t. [0, 1], \<lambda>t. [1, 0], \<lambda>t. [0, 1]]), 1)"
    by (simp add: sweep_in_def triple_state_def loop_body_fun_cases M bc dense mu0 rhoT Let_def)
  from sweeps_reuse_one_permutation [OF h1 h2, of triple_state 2 2] so run
  show ?thesis by (simp add: p numeral_2_eq_2)
qed

end
